theory Spec2Isabelle
  imports
    Main
    "HOL-Library.Char_ord"
    "HOL-Library.List_Lexorder"
    "HOL-Library.Product_Lexorder"
    "HOL-Library.FSet"
    "HOL-Library.Multiset"
    "HOL-Library.AList"
begin

section \<open>The packing-slip and shipping-label sorter of \<^verbatim>\<open>app.py\<close>\<close>

text \<open>
  A shallow embedding of the document pipeline of \<^verbatim>\<open>src/app.py\<close>: the area resolver
  \<^verbatim>\<open>get_warehouse_area\<close>, the label composer \<^verbatim>\<open>determine_area_identifier\<close>, the line
  parser \<^verbatim>\<open>extract_product_details\<close>, the manifest aggregation of \<^verbatim>\<open>generate_summary\<close> and
  \<^verbatim>\<open>create_summary_pdf_page\<close>, and the control flow of
  \<^verbatim>\<open>process_packing_slips_and_labels\<close> up to the two output files.

  Conventions of the model.
  \<^item> A Python \<^verbatim>\<open>str\<close> is a \<^typ>\<open>string\<close>. Case folding and white space are modelled on
    ASCII: \<^verbatim>\<open>lower\<close> maps \<^verbatim>\<open>A-Z\<close> to \<^verbatim>\<open>a-z\<close> and leaves every other character alone,
    and the white-space characters are the ASCII ones of \<^verbatim>\<open>str.isspace\<close>.
  \<^item> Strings compare as Python compares them, character by character with a proper
    prefix first (\<open>List_Lexorder\<close> over \<open>Char_ord\<close>); tuples compare lexicographically
    (\<open>Product_Lexorder\<close>).
  \<^item> A Python \<^verbatim>\<open>set\<close> is a finite set (\<^typ>\<open>'a fset\<close>), a \<^verbatim>\<open>dict\<close> that is only read is
    a map, and a \<^verbatim>\<open>dict\<close> whose insertion order is observed is an association list.
  \<^item> Calls to \<^verbatim>\<open>logging\<close> are left out, except the warning of the aggregator for a
    quantity that is no integer.
  \<^item> \<^verbatim>\<open>int\<close> refuses a string of more than \<^verbatim>\<open>sys.int_max_str_digits\<close> digits, and the
    model does. \<^verbatim>\<open>str\<close> refuses an integer of more than that many digits too; the model
    prints every integer, so it describes the manifest of the areas whose summed
    quantities stay within the 4300 digits of the default limit.
\<close>

subsection \<open>Strings\<close>

text \<open>\<^verbatim>\<open>str.isspace\<close> on one ASCII character: space, \<^verbatim>\<open>\t \n \v \f \r\<close> and the four
  separators \<^verbatim>\<open>\x1c .. \x1f\<close>.\<close>

definition py_isspace :: "char \<Rightarrow> bool" where
  "py_isspace c = (c \<in> set [CHR '' '', CHR 0x09, CHR 0x0A, CHR 0x0B, CHR 0x0C, CHR 0x0D,
                              CHR 0x1C, CHR 0x1D, CHR 0x1E, CHR 0x1F])"

text \<open>\<^verbatim>\<open>s.strip()\<close>.\<close>

definition strip :: "string \<Rightarrow> string" where
  "strip s = rev (dropWhile py_isspace (rev (dropWhile py_isspace s)))"

text \<open>\<^verbatim>\<open>s.lower()\<close>.\<close>

definition lower_char :: "char \<Rightarrow> char" where
  "lower_char c =
     (case map_of (zip ''ABCDEFGHIJKLMNOPQRSTUVWXYZ'' ''abcdefghijklmnopqrstuvwxyz'') c of
        Some d \<Rightarrow> d
      | None \<Rightarrow> c)"

definition lower :: "string \<Rightarrow> string" where
  "lower s = map lower_char s"

text \<open>\<^verbatim>\<open>s.startswith(p)\<close> and the substring test \<^verbatim>\<open>sub in s\<close>.\<close>

fun startswith :: "string \<Rightarrow> string \<Rightarrow> bool" where
  "startswith s [] = True"
| "startswith [] (p # ps) = False"
| "startswith (c # cs) (p # ps) = (c = p \<and> startswith cs ps)"

fun py_in :: "string \<Rightarrow> string \<Rightarrow> bool" where
  "py_in sub [] = (sub = [])"
| "py_in sub (c # cs) = (startswith (c # cs) sub \<or> py_in sub cs)"

text \<open>\<^verbatim>\<open>sep.join(xs)\<close>.\<close>

fun join :: "string \<Rightarrow> string list \<Rightarrow> string" where
  "join sep [] = []"
| "join sep [x] = x"
| "join sep (x # y # ys) = x @ sep @ join sep (y # ys)"

subsection \<open>Area resolver and area identifier\<close>

text \<open>\<^verbatim>\<open>AREA_SORT_ORDER\<close>, the fixed order of the areas.\<close>

definition AREA_SORT_ORDER :: "string list" where
  "AREA_SORT_ORDER =
     [''A13'', ''D16'', ''B11'', ''B12'', ''B13'', ''B14'', ''B16'', ''B17'', ''B18'', ''B19'',
      ''garage'']"

text \<open>\<^verbatim>\<open>get_warehouse_area(product, warehouse_map)\<close>: the sample rule first, then the exact
  lookup, then the sentinel.\<close>

definition get_warehouse_area :: "string \<Rightarrow> (string \<rightharpoonup> string) \<Rightarrow> string" where
  "get_warehouse_area product warehouse_map =
     (if py_in ''sample'' (lower product) then ''garage''
      else case warehouse_map product of
             Some area \<Rightarrow> area
           | None \<Rightarrow> ''Unknown Area'')"

text \<open>\<^verbatim>\<open>determine_area_identifier(product_areas)\<close> on the set of areas of one page.\<close>

definition determine_area_identifier :: "string fset \<Rightarrow> string" where
  "determine_area_identifier product_areas =
     (if ''B16'' |\<in>| product_areas \<and> fcard product_areas > 1
      then join '', '' (sorted_list_of_fset (product_areas |-| {|''B16''|}))
      else join '', '' (sorted_list_of_fset product_areas))"

subsection \<open>Sort engine\<close>

text \<open>\<^verbatim>\<open>xs.index(x)\<close>, called only under the guard \<^verbatim>\<open>x in xs\<close>.\<close>

fun index_of :: "'a list \<Rightarrow> 'a \<Rightarrow> nat" where
  "index_of [] x = 0"
| "index_of (y # ys) x = (if y = x then 0 else Suc (index_of ys x))"

text \<open>\<^verbatim>\<open>get_primary_area\<close>: \<^verbatim>\<open>area_identifier.split(',')[0].strip()\<close>.\<close>

definition get_primary_area :: "string \<Rightarrow> string" where
  "get_primary_area area_identifier = strip (takeWhile (\<lambda>c. c \<noteq> CHR '','') area_identifier)"

text \<open>\<^verbatim>\<open>sort_key\<close> on an item \<^verbatim>\<open>(page, area_identifier, index, product_title)\<close> of
  \<^verbatim>\<open>pages_with_info\<close>.\<close>

definition sort_key_fn :: "'p \<times> string \<times> nat \<times> string \<Rightarrow> nat \<times> string" where
  "sort_key_fn item =
     (case item of (page, area_identifier, index, product_title) \<Rightarrow>
        let primary_area = get_primary_area area_identifier;
            area_sort_value =
              (if primary_area \<in> set AREA_SORT_ORDER then index_of AREA_SORT_ORDER primary_area
               else length AREA_SORT_ORDER);
            product_sort_value = product_title
        in (area_sort_value, product_sort_value))"

text \<open>\<^verbatim>\<open>sorted(xs, key=key)\<close>. Python's sort is stable and compares keys only; the result
  of a stable sort is determined by the keys, so the stable insertion sort of the
  library computes the same list.\<close>

definition py_sorted :: "('a \<Rightarrow> 'k::linorder) \<Rightarrow> 'a list \<Rightarrow> 'a list" where
  "py_sorted key xs = sort_key key xs"

subsection \<open>Integers and sizes\<close>

text \<open>\<^verbatim>\<open>s.upper()\<close> and \<^verbatim>\<open>s.replace(old, new)\<close> (called with a non-empty \<^verbatim>\<open>old\<close> only).\<close>

definition upper_char :: "char \<Rightarrow> char" where
  "upper_char c =
     (case map_of (zip ''abcdefghijklmnopqrstuvwxyz'' ''ABCDEFGHIJKLMNOPQRSTUVWXYZ'') c of
        Some d \<Rightarrow> d
      | None \<Rightarrow> c)"

definition upper :: "string \<Rightarrow> string" where
  "upper s = map upper_char s"

fun replace :: "string \<Rightarrow> string \<Rightarrow> string \<Rightarrow> string" where
  "replace [] old new = []"
| "replace (c # cs) old new =
     (if old \<noteq> [] \<and> startswith (c # cs) old
      then new @ replace (drop (length old - 1) cs) old new
      else c # replace cs old new)"

text \<open>\<^verbatim>\<open>int(s)\<close> on a string. The white space \<^verbatim>\<open>int\<close> drops at both ends is that of
  C (\<^verbatim>\<open>Py_ISSPACE\<close>: space and \<^verbatim>\<open>\t \n \v \f \r\<close>), not that of \<^verbatim>\<open>str.strip\<close>: the
  separators \<^verbatim>\<open>\x1c .. \x1f\<close> stay and make the string invalid. One sign is allowed, and the
  rest is decimal digits, single underscores allowed between digits; more than
  \<^verbatim>\<open>sys.int_max_str_digits\<close> digits, 4300 unless the interpreter is told otherwise, are
  refused. \<^const>\<open>None\<close> is the \<^verbatim>\<open>ValueError\<close>.\<close>

definition int_isspace :: "char \<Rightarrow> bool" where
  "int_isspace c = (c \<in> set [CHR '' '', CHR 0x09, CHR 0x0A, CHR 0x0B, CHR 0x0C, CHR 0x0D])"

definition int_max_str_digits :: nat where
  "int_max_str_digits = 4300"

definition is_digit :: "char \<Rightarrow> bool" where
  "is_digit c = (c \<in> set ''0123456789'')"

fun digits_ok :: "string \<Rightarrow> bool" where
  "digits_ok [] = False"
| "digits_ok [c] = is_digit c"
| "digits_ok (c # d # cs) =
     (is_digit c \<and> (if d = CHR ''_'' then digits_ok cs else digits_ok (d # cs)))"

definition digits_value :: "string \<Rightarrow> int" where
  "digits_value ds =
     foldl (\<lambda>acc c. 10 * acc + int (index_of ''0123456789'' c)) 0
       (filter (\<lambda>c. c \<noteq> CHR ''_'') ds)"

definition py_int :: "string \<Rightarrow> int option" where
  "py_int s =
     (let t = rev (dropWhile int_isspace (rev (dropWhile int_isspace s)));
          negative = (t \<noteq> [] \<and> hd t = CHR ''-'');
          body = (if t \<noteq> [] \<and> (hd t = CHR ''-'' \<or> hd t = CHR ''+'') then tl t else t)
      in if digits_ok body \<and>
            length (filter (\<lambda>c. c \<noteq> CHR ''_'') body) \<le> int_max_str_digits
         then Some (if negative then - digits_value body else digits_value body)
         else None)"

text \<open>\<^verbatim>\<open>str(i)\<close> on an integer: its decimal numeral, with a minus sign when it is
  negative. (Python raises \<^verbatim>\<open>ValueError\<close> for more than \<^verbatim>\<open>sys.int_max_str_digits\<close>
  digits; see the conventions.)\<close>

fun str_nat :: "nat \<Rightarrow> string" where
  "str_nat n =
     (if n < 10 then [''0123456789'' ! n]
      else str_nat (n div 10) @ [''0123456789'' ! (n mod 10)])"

declare str_nat.simps [simp del]

definition py_str :: "int \<Rightarrow> string" where
  "py_str i = (if i < 0 then CHR ''-'' # str_nat (nat (- i)) else str_nat (nat i))"

text \<open>\<^verbatim>\<open>size_sort_key(size)\<close>; each \<^verbatim>\<open>try\<close> that fails falls through to the next test.\<close>

definition letter_sizes_order :: "string \<rightharpoonup> int" where
  "letter_sizes_order =
     map_of [(''XS'', 1), (''S'', 2), (''M'', 3), (''L'', 4), (''XL'', 5), (''XXL'', 6)]"

definition size_sort_key :: "string \<Rightarrow> int" where
  "size_sort_key size' =
     (let size_clean = strip (lower size') in
      case (if startswith size_clean ''size ''
            then py_int (strip (replace size_clean ''size '' []))
            else None) of
        Some num \<Rightarrow> num
      | None \<Rightarrow>
          (case py_int size_clean of
             Some num \<Rightarrow> num
           | None \<Rightarrow>
               (case letter_sizes_order (upper size') of
                  Some rank \<Rightarrow> rank
                | None \<Rightarrow> 100)))"

subsection \<open>Summary aggregator\<close>

text \<open>A line item \<^verbatim>\<open>(product_title, size, quantity)\<close>; all three are strings.\<close>

type_synonym item = "string \<times> string \<times> string"

text \<open>The warning \<^verbatim>\<open>create_summary_pdf_page\<close> logs for a quantity that \<^verbatim>\<open>int\<close> rejects.\<close>

definition invalid_quantity_warning :: "item \<Rightarrow> string" where
  "invalid_quantity_warning entry =
     (case entry of (product_title, size', quantity) \<Rightarrow>
        ''Invalid quantity '' @ [CHR 0x27] @ quantity @ [CHR 0x27] @ '' for product '' @
        [CHR 0x27] @ product_title @ [CHR 0x27] @ '', size '' @ [CHR 0x27] @ size' @ [CHR 0x27] @
        ''. Skipping.'')"

text \<open>The loop of \<^verbatim>\<open>create_summary_pdf_page\<close> over the sorted products of one area. The
  dictionary \<^verbatim>\<open>unique_products\<close> is an association list in insertion order: an
  assignment to a present key keeps the key's place, one to a new key appends it
  (\<^const>\<open>AList.update\<close>). The logged warnings are returned beside it.\<close>

fun merge_quantities ::
  "item list \<Rightarrow> ((string \<times> string) \<times> int) list \<Rightarrow> string list \<Rightarrow>
     ((string \<times> string) \<times> int) list \<times> string list" where
  "merge_quantities [] unique_products warnings = (unique_products, warnings)"
| "merge_quantities ((product_title, size', quantity) # rest) unique_products warnings =
     (case py_int quantity of
        None \<Rightarrow>
          merge_quantities rest unique_products
            (warnings @ [invalid_quantity_warning (product_title, size', quantity)])
      | Some quantity_int \<Rightarrow>
          (case map_of unique_products (product_title, size') of
             Some current \<Rightarrow>
               merge_quantities rest
                 (AList.update (product_title, size') (current + quantity_int) unique_products)
                 warnings
           | None \<Rightarrow>
               merge_quantities rest
                 (AList.update (product_title, size') quantity_int unique_products)
                 warnings))"

text \<open>\<^verbatim>\<open>sorted(products, key=lambda x: (x[0].lower(), size_sort_key(x[1])))\<close>, the
  dictionary built from it, and the rows \<^verbatim>\<open>data\<close> of the table.\<close>

definition sorted_products_of :: "item list \<Rightarrow> item list" where
  "sorted_products_of products =
     py_sorted (\<lambda>x. (lower (fst x), size_sort_key (fst (snd x)))) products"

definition unique_products_of ::
  "item list \<Rightarrow> ((string \<times> string) \<times> int) list \<times> string list" where
  "unique_products_of products = merge_quantities (sorted_products_of products) [] []"

definition table_data :: "item list \<Rightarrow> string list list" where
  "table_data products =
     [''Product Title'', ''Size'', ''Quantity''] #
     map (\<lambda>((product_title, size'), quantity). [product_title, size', py_str quantity])
       (fst (unique_products_of products))"

text \<open>The flowables \<^verbatim>\<open>elements\<close> of \<^verbatim>\<open>create_summary_pdf_page\<close>: for each area of
  \<^verbatim>\<open>AREA_SORT_ORDER\<close> that is a key of \<^verbatim>\<open>summary_data\<close> and whose table has a row
  besides the header, the title of the area and the table.\<close>

definition area_title_of :: "string \<Rightarrow> string" where
  "area_title_of area = (if lower area = ''garage'' then ''Garage'' else ''Locker: '' @ area)"

definition summary_elements ::
  "(string \<rightharpoonup> item list) \<Rightarrow> (string \<times> string list list) list" where
  "summary_elements summary_data =
     concat (map (\<lambda>area.
        case summary_data area of
          None \<Rightarrow> []
        | Some products \<Rightarrow>
            (let data = table_data products
             in if length data > 1 then [(area_title_of area, data)] else []))
       AREA_SORT_ORDER)"

text \<open>The quantities of the entries of one \<^verbatim>\<open>(product_title, size)\<close> pair that \<^verbatim>\<open>int\<close>
  accepts, in the order of the entries.\<close>

definition parsed_quantities :: "string \<times> string \<Rightarrow> item list \<Rightarrow> int list" where
  "parsed_quantities k products =
     List.map_filter (\<lambda>(product_title, size', quantity).
        if (product_title, size') = k then py_int quantity else None) products"

subsection \<open>Line-oriented product parser\<close>

text \<open>The vocabulary of sizes and the phrases that end the items section.\<close>

definition acceptable_sizes :: "string list" where
  "acceptable_sizes =
     [''1'', ''2'', ''S'', ''M'', ''L'', ''SM'', ''ML'', ''LG'', ''Size 1'', ''Size 2'', ''Sample''] @
     map str_nat [30..<51]"

definition stop_phrases :: "string list" where
  "stop_phrases =
     [''Please note our return window'', ''Thank you for shopping with us!'',
      ''If you have any questions'', ''NOTES'', ''SIGNATURE REQUIRED SHIPPING'',
      ''please visit our returns portal'', ''yourcompany.com'']"

text \<open>\<^verbatim>\<open>s.split(sep)\<close> for a separator of one character.\<close>

fun split_on :: "char \<Rightarrow> string \<Rightarrow> string list" where
  "split_on sep [] = [[]]"
| "split_on sep (c # cs) =
     (if c = sep then [] # split_on sep cs
      else (case split_on sep cs of [] \<Rightarrow> [[c]] | l # ls \<Rightarrow> (c # l) # ls))"

text \<open>
  \<^verbatim>\<open>re.match(r'(\S+(?:\s+\d+)?)\s+(\d+)\s+of\s+\d+', size_line)\<close>, as the pair of its two
  groups. The pattern is anchored at the start only. Each \<^verbatim>\<open>\S+\<close> and \<^verbatim>\<open>\d+\<close> of it is
  followed by \<^verbatim>\<open>\s+\<close>, and each \<^verbatim>\<open>\s+\<close> by a character that is no white space, so a match
  cuts the line at the boundaries of its white-space separated words: with the optional
  group, the words are any word, a number, a number, \<^verbatim>\<open>of\<close> and a word that starts with a
  digit, and the first group is the first two words with the white space between them;
  without it, they are any word, a number, \<^verbatim>\<open>of\<close> and a word that starts with a digit.
  The third word is a number in the one case and \<^verbatim>\<open>of\<close> in the other, so at most one of
  the two matches; the matcher tries the optional group first.
\<close>

definition all_digits :: "string \<Rightarrow> bool" where
  "all_digits s = (s \<noteq> [] \<and> list_all is_digit s)"

definition re_match_size_line :: "string \<Rightarrow> (string \<times> string) option" where
  "re_match_size_line s =
     (let nonspace = (\<lambda>c. \<not> py_isspace c);
          t1 = takeWhile nonspace s;
          r1 = dropWhile nonspace s;
          w1 = takeWhile py_isspace r1;
          r2 = dropWhile py_isspace r1;
          t2 = takeWhile nonspace r2;
          r3 = dropWhile py_isspace (dropWhile nonspace r2);
          t3 = takeWhile nonspace r3;
          r4 = dropWhile py_isspace (dropWhile nonspace r3);
          t4 = takeWhile nonspace r4;
          r5 = dropWhile py_isspace (dropWhile nonspace r4)
      in if t1 \<noteq> [] \<and> all_digits t2 \<and> all_digits t3 \<and> t4 = ''of'' \<and> r5 \<noteq> [] \<and> is_digit (hd r5)
         then Some (t1 @ w1 @ t2, t3)
         else if t1 \<noteq> [] \<and> all_digits t2 \<and> t3 = ''of'' \<and> r4 \<noteq> [] \<and> is_digit (hd r4)
         then Some (t1, t2)
         else None)"

text \<open>\<^verbatim>\<open>re.search(r'size\s+(\d+)', s)\<close>, as its group: the digits after the leftmost
  \<^verbatim>\<open>size\<close> that white space and a digit follow.\<close>

fun re_search_size :: "string \<Rightarrow> string option" where
  "re_search_size [] = None"
| "re_search_size (c # cs) =
     (let r = drop 4 (c # cs);
          d = takeWhile is_digit (dropWhile py_isspace r)
      in if startswith (c # cs) ''size'' \<and> takeWhile py_isspace r \<noteq> [] \<and> d \<noteq> []
         then Some d
         else re_search_size cs)"

text \<open>The size and the quantity that \<^verbatim>\<open>extract_product_details\<close> reads from the line after
  a title; \<^const>\<open>None\<close> when \<^verbatim>\<open>size\<close> stays \<^verbatim>\<open>None\<close> and the title is no sample.\<close>

definition size_and_quantity :: "string \<Rightarrow> string \<Rightarrow> (string \<times> string) option" where
  "size_and_quantity size_line product_title_normalized =
     (case (case re_match_size_line size_line of
              Some (size_candidate, quantity_candidate) \<Rightarrow>
                if size_candidate \<in> set acceptable_sizes
                then Some (size_candidate, quantity_candidate) else None
            | None \<Rightarrow>
                if size_line \<in> set acceptable_sizes then Some (size_line, ''1'') else None) of
        Some found \<Rightarrow> Some found
      | None \<Rightarrow>
          if py_in ''sample'' product_title_normalized
          then (case re_search_size product_title_normalized of
                  Some d \<Rightarrow> Some (d, ''1'')
                | None \<Rightarrow> Some (''Sample'', ''1''))
          else None)"

text \<open>The optional SKU line: \<^verbatim>\<open>'SKU' in lines[i] or re.match(r'^LB', lines[i].strip())\<close>.\<close>

definition skip_sku :: "string list \<Rightarrow> string list" where
  "skip_sku ls =
     (case ls of
        [] \<Rightarrow> []
      | l # rest \<Rightarrow> if py_in ''SKU'' l \<or> startswith (strip l) ''LB'' then rest else l # rest)"

text \<open>The inner loop of \<^verbatim>\<open>extract_product_details\<close> on the lines that are left, and the
  function itself: the lines up to the first one that holds \<^verbatim>\<open>ITEMS\<close> are skipped, and
  only that items section is read.\<close>

function items_section :: "string list \<Rightarrow> (string \<rightharpoonup> string) \<Rightarrow> item list" where
  "items_section [] warehouse_map = []"
| "items_section (l # ls) warehouse_map =
     (let product_title = strip l in
      if product_title = [] \<or> list_ex (\<lambda>stop_phrase. py_in stop_phrase product_title) stop_phrases
      then []
      else
        let product_title_normalized = strip (lower product_title) in
        if warehouse_map product_title_normalized = None \<and>
           \<not> py_in ''sample'' product_title_normalized
        then items_section ls warehouse_map
        else
          (case ls of
             [] \<Rightarrow> []
           | size_line # after \<Rightarrow>
               (case size_and_quantity (strip size_line) product_title_normalized of
                  None \<Rightarrow> items_section after warehouse_map
                | Some (size', quantity) \<Rightarrow>
                    (if product_title \<noteq> [] \<and> size' \<noteq> [] \<and> quantity \<noteq> []
                     then [(product_title, size', quantity)] else []) @
                    items_section (skip_sku after) warehouse_map)))"
  by pat_completeness auto
termination
  by (relation "measure (\<lambda>(ls, warehouse_map). length ls)")
     (auto simp: skip_sku_def split: list.splits)

definition extract_product_details :: "string \<Rightarrow> (string \<rightharpoonup> string) \<Rightarrow> item list" where
  "extract_product_details text' warehouse_map =
     (case dropWhile (\<lambda>line. \<not> py_in ''ITEMS'' (strip line)) (split_on (CHR 0x0A) text') of
        [] \<Rightarrow> []
      | marker # after \<Rightarrow> items_section after warehouse_map)"

subsection \<open>Manifest data\<close>

text \<open>\<^verbatim>\<open>generate_summary\<close>: every item of every kept page is appended to the bucket of
  its area in \<^verbatim>\<open>summary_data\<close>; \<^verbatim>\<open>create_summary_pdf_page\<close> then lays the elements out.
  The layout (building the document and reading its pages back) is a parameter; with
  no element there is no page.\<close>

definition add_to_summary ::
  "(string \<rightharpoonup> string) \<Rightarrow> (string \<rightharpoonup> item list) \<Rightarrow> item \<Rightarrow> (string \<rightharpoonup> item list)" where
  "add_to_summary warehouse_map summary_data entry =
     (case entry of (product_title, size', quantity) \<Rightarrow>
        let product_title_normalized = strip (lower product_title);
            area = get_warehouse_area product_title_normalized warehouse_map;
            bucket = (case summary_data area of None \<Rightarrow> [] | Some products \<Rightarrow> products)
        in summary_data(area \<mapsto> bucket @ [(product_title, size', quantity)]))"

definition summary_data_of ::
  "string list \<Rightarrow> (string \<rightharpoonup> string) \<Rightarrow> nat list \<Rightarrow> (string \<rightharpoonup> item list)" where
  "summary_data_of texts warehouse_map indices_to_keep =
     foldl (\<lambda>summary_data idx.
              foldl (add_to_summary warehouse_map) summary_data
                (extract_product_details (texts ! idx) warehouse_map))
       Map.empty indices_to_keep"

definition create_summary_pdf_page ::
  "((string \<times> string list list) list \<Rightarrow> 'p list) \<Rightarrow> (string \<rightharpoonup> item list) \<Rightarrow> 'p list" where
  "create_summary_pdf_page build summary_data =
     (let elements = summary_elements summary_data
      in if elements = [] then [] else build elements)"

text \<open>The area of the bucket an item goes to.\<close>

definition item_area :: "(string \<rightharpoonup> string) \<Rightarrow> item \<Rightarrow> string" where
  "item_area warehouse_map entry =
     (case entry of (product_title, size', quantity) \<Rightarrow>
        get_warehouse_area (strip (lower product_title)) warehouse_map)"

subsection \<open>Page selector\<close>

text \<open>Step 2 of \<^verbatim>\<open>process_packing_slips_and_labels\<close> on the items of one page: the set
  \<^verbatim>\<open>product_areas\<close>, the flag \<^verbatim>\<open>has_samples\<close>, and the decision, which has the two
  \<^verbatim>\<open>continue\<close> of the loop as its two \<^const>\<open>False\<close>.\<close>

definition product_areas_of :: "item list \<Rightarrow> (string \<rightharpoonup> string) \<Rightarrow> string fset" where
  "product_areas_of product_details warehouse_map =
     fset_of_list
       (map (\<lambda>(product_title, size', quantity).
               get_warehouse_area (strip (lower product_title)) warehouse_map)
          product_details)"

definition has_samples :: "item list \<Rightarrow> bool" where
  "has_samples product_details =
     list_ex (\<lambda>detail. py_in ''sample'' (lower (fst detail))) product_details"

definition keep_page :: "item list \<Rightarrow> (string \<rightharpoonup> string) \<Rightarrow> bool" where
  "keep_page product_details warehouse_map =
     (if product_details = [] then False
      else if product_areas_of product_details warehouse_map = {||} \<and>
              \<not> has_samples product_details
      then False
      else True)"

definition indices_to_keep_of :: "string list \<Rightarrow> (string \<rightharpoonup> string) \<Rightarrow> nat list" where
  "indices_to_keep_of texts warehouse_map =
     filter (\<lambda>idx. keep_page (extract_product_details (texts ! idx) warehouse_map) warehouse_map)
       [0..<length texts]"

text \<open>The primary product of a page in step 5.\<close>

definition primary_product_of :: "item list \<Rightarrow> string" where
  "primary_product_of product_details =
     (case product_details of
        [] \<Rightarrow> []
      | (product_title, size', quantity) # others \<Rightarrow> strip (lower product_title))"

subsection \<open>The run\<close>

text \<open>
  What the operator sees of a run: the lines of the status field, the error popups and
  the files opened at the end. The popups stand for the messages of the source:
  \<^item> \<open>NoSaveDirectory\<close>: \<^verbatim>\<open>Please select a directory to save the output files.\<close>
  \<^item> \<open>CreateDirectoryFailed path e\<close>: \<^verbatim>\<open>Failed to create directory {path}: {e}\<close>
  \<^item> \<open>PackingSlipsEmpty\<close>: \<^verbatim>\<open>The packing slips PDF is empty.\<close>
  \<^item> \<open>NoValidProducts\<close>: \<^verbatim>\<open>No valid products found. ...\<close>
  \<^item> \<open>SavePdfFailed e\<close>: \<^verbatim>\<open>Error saving PDF: {e}\<close>, shown by \<^verbatim>\<open>save_pdf\<close>
  \<^item> \<open>LabelCountMismatch\<close>:
    \<^verbatim>\<open>The number of shipping labels does not match the number of packing slips.\<close>
  \<^item> \<open>InvalidLabelIndices invalid m\<close>:
    \<^verbatim>\<open>Invalid shipping label indices found: {invalid}. Max valid index: {m}\<close>
  \<^item> \<open>ProcessingFailed e\<close>: \<^verbatim>\<open>An error occurred during processing: {e}\<close>, shown by the
    handler around the whole function.
\<close>

datatype status_line =
    ReadingPackingSlips
  | ExtractingProductDetails
  | GeneratingSummary
  | AnnotatingPackingSlips
  | AnnotatingPage nat nat
  | SortingPackingSlips
  | SavingSortedPackingSlips
  | ProcessingShippingLabels
  | ProcessingCompleted
  | ErrorOccurred

datatype popup =
    NoSaveDirectory
  | CreateDirectoryFailed string string
  | PackingSlipsEmpty
  | NoValidProducts
  | SavePdfFailed string
  | LabelCountMismatch
  | InvalidLabelIndices "nat list" int
  | ProcessingFailed string

datatype event = Status status_line | PopupError popup | OpenFile string

text \<open>
  The surroundings of one run. A deck is the list of its pages (\<^const>\<open>Inl\<close> the message
  of the exception when the reader cannot open the file); a page of the packing slips
  comes with the text \<^verbatim>\<open>extract_text_from_page\<close> returns for it, the empty string when
  the extraction fails. Drawing the area identifier on a page and laying out the
  summary are functions of the surroundings. A write fails with the message of its
  exception. The popups that \<^verbatim>\<open>extract_text_from_page\<close>,
  \<^verbatim>\<open>add_area_identifier_to_page\<close> and \<^verbatim>\<open>create_summary_pdf_page\<close> show for a failure of
  their own are not recorded, and the print dialogue that follows a completed run is
  not modelled.
\<close>

record ('p, 'l) run =
  save_path :: string
  save_path_exists :: bool
  makedirs_error :: "string option"
  packing_slips :: "string + ('p \<times> string) list"
  shipping_labels :: "string + 'l list"
  add_area_identifier_to_page :: "'p \<Rightarrow> string \<Rightarrow> 'p"
  build_summary_pages :: "(string \<times> string list list) list \<Rightarrow> 'p list"
  save_slips_error :: "string option"
  save_labels_error :: "string option"

text \<open>The result of a run: what the operator saw, and the pages of each output file
  that was written (\<^const>\<open>None\<close>: the run did not write the file).\<close>

record ('p, 'l) outcome =
  events :: "event list"
  sorted_packing_slips_pdf :: "'p list option"
  sorted_shipping_labels_pdf :: "'l list option"

text \<open>\<^verbatim>\<open>os.path.join(a, b)\<close> for a relative \<^verbatim>\<open>b\<close>.\<close>

definition os_path_join :: "string \<Rightarrow> string \<Rightarrow> string" where
  "os_path_join a b = (if a \<noteq> [] \<and> last a \<noteq> CHR ''/'' then a @ ''/'' @ b else a @ b)"

text \<open>Steps 2, 4 and 5: the parallel lists of the kept pages and their zip
  \<^verbatim>\<open>pages_with_info\<close>; then the sorted pages and the sorted indices.\<close>

definition pages_with_info_of ::
  "('p, 'l) run \<Rightarrow> (string \<rightharpoonup> string) \<Rightarrow> ('p \<times> string) list \<Rightarrow>
     ('p \<times> string \<times> nat \<times> string) list" where
  "pages_with_info_of r warehouse_map packing_slips_pages =
     (let texts = map snd packing_slips_pages;
          indices_to_keep = indices_to_keep_of texts warehouse_map;
          pages_to_keep = map (\<lambda>idx. fst (packing_slips_pages ! idx)) indices_to_keep;
          page_areas_list =
            map (\<lambda>idx. product_areas_of (extract_product_details (texts ! idx) warehouse_map)
                          warehouse_map) indices_to_keep;
          area_identifiers = map determine_area_identifier page_areas_list;
          annotated_packing_slips_pages =
            map (\<lambda>(page, area_identifier). add_area_identifier_to_page r page area_identifier)
              (zip pages_to_keep area_identifiers);
          page_product_titles =
            map (\<lambda>idx. primary_product_of (extract_product_details (texts ! idx) warehouse_map))
              indices_to_keep
      in zip annotated_packing_slips_pages
           (zip area_identifiers (zip indices_to_keep page_product_titles)))"

definition sorted_indices_of ::
  "('p, 'l) run \<Rightarrow> (string \<rightharpoonup> string) \<Rightarrow> ('p \<times> string) list \<Rightarrow> nat list" where
  "sorted_indices_of r warehouse_map packing_slips_pages =
     map (\<lambda>item. fst (snd (snd item)))
       (py_sorted sort_key_fn (pages_with_info_of r warehouse_map packing_slips_pages))"

definition sorted_pages_of ::
  "('p, 'l) run \<Rightarrow> (string \<rightharpoonup> string) \<Rightarrow> ('p \<times> string) list \<Rightarrow> 'p list" where
  "sorted_pages_of r warehouse_map packing_slips_pages =
     map fst (py_sorted sort_key_fn (pages_with_info_of r warehouse_map packing_slips_pages))"

text \<open>Steps 6 and 7: \<^verbatim>\<open>save_pdf\<close> writes the summary pages and the sorted pages, and on a
  failure shows its popup and returns; then the shipping labels are read, checked and
  written. \<^verbatim>\<open>so_far\<close> holds the events of the steps before.\<close>

definition save_and_correlate ::
  "('p, 'l) run \<Rightarrow> event list \<Rightarrow> nat \<Rightarrow> 'p list \<Rightarrow> 'p list \<Rightarrow> nat list \<Rightarrow> ('p, 'l) outcome" where
  "save_and_correlate r so_far total_pages summary_pages sorted_pages sorted_indices =
     (let sorted_packing_slips_path = os_path_join (save_path r) ''sorted_packing_slips.pdf'';
          sorted_shipping_labels_path = os_path_join (save_path r) ''sorted_shipping_labels.pdf'';
          slips_written =
            (case save_slips_error r of
               None \<Rightarrow> Some (summary_pages @ sorted_pages)
             | Some e \<Rightarrow> None);
          saved =
            so_far @ [Status SavingSortedPackingSlips] @
            (case save_slips_error r of
               None \<Rightarrow> []
             | Some e \<Rightarrow> [PopupError (SavePdfFailed e)]) @
            [Status ProcessingShippingLabels]
      in case shipping_labels r of
           Inl e \<Rightarrow>
             \<lparr>events = saved @ [PopupError (ProcessingFailed e), Status ErrorOccurred],
              sorted_packing_slips_pdf = slips_written,
              sorted_shipping_labels_pdf = None\<rparr>
         | Inr shipping_labels_pages \<Rightarrow>
             if length shipping_labels_pages \<noteq> total_pages
             then \<lparr>events = saved @ [PopupError LabelCountMismatch],
                   sorted_packing_slips_pdf = slips_written,
                   sorted_shipping_labels_pdf = None\<rparr>
             else
               let invalid_indices =
                     filter (\<lambda>i. i \<ge> length shipping_labels_pages) sorted_indices
               in if invalid_indices \<noteq> []
                  then \<lparr>events = saved @
                          [PopupError (InvalidLabelIndices invalid_indices
                             (int (length shipping_labels_pages) - 1))],
                        sorted_packing_slips_pdf = slips_written,
                        sorted_shipping_labels_pdf = None\<rparr>
                  else
                    let added =
                          map (\<lambda>page_index. shipping_labels_pages ! page_index)
                            (filter (\<lambda>page_index. page_index < length shipping_labels_pages)
                               sorted_indices)
                    in (case save_labels_error r of
                          Some e \<Rightarrow>
                            \<lparr>events = saved @ [PopupError (ProcessingFailed e), Status ErrorOccurred],
                             sorted_packing_slips_pdf = slips_written,
                             sorted_shipping_labels_pdf = None\<rparr>
                        | None \<Rightarrow>
                            \<lparr>events = saved @
                               [OpenFile sorted_packing_slips_path,
                                OpenFile sorted_shipping_labels_path,
                                Status ProcessingCompleted],
                             sorted_packing_slips_pdf = slips_written,
                             sorted_shipping_labels_pdf = Some added\<rparr>))"

text \<open>\<^verbatim>\<open>process_packing_slips_and_labels\<close>, from the status line of its first statement
  to the opening of the two files.\<close>

definition process_packing_slips_and_labels ::
  "('p, 'l) run \<Rightarrow> (string \<rightharpoonup> string) \<Rightarrow> ('p, 'l) outcome" where
  "process_packing_slips_and_labels r warehouse_map =
     (let stopped = (\<lambda>evs. \<lparr>events = evs, sorted_packing_slips_pdf = None,
                            sorted_shipping_labels_pdf = None\<rparr>)
      in if save_path r = []
         then stopped [Status ReadingPackingSlips, PopupError NoSaveDirectory]
         else
           (case (if save_path_exists r then None else makedirs_error r) of
              Some e \<Rightarrow>
                stopped [Status ReadingPackingSlips,
                         PopupError (CreateDirectoryFailed (save_path r) e)]
            | None \<Rightarrow>
                (case packing_slips r of
                   Inl e \<Rightarrow>
                     stopped [Status ReadingPackingSlips, PopupError (ProcessingFailed e),
                              Status ErrorOccurred]
                 | Inr packing_slips_pages \<Rightarrow>
                     let total_pages = length packing_slips_pages in
                     if total_pages = 0
                     then stopped [Status ReadingPackingSlips, PopupError PackingSlipsEmpty]
                     else
                       let texts = map snd packing_slips_pages;
                           indices_to_keep = indices_to_keep_of texts warehouse_map
                       in if indices_to_keep = []
                          then stopped [Status ReadingPackingSlips,
                                        Status ExtractingProductDetails,
                                        PopupError NoValidProducts]
                          else
                            let summary_pages =
                                  create_summary_pdf_page (build_summary_pages r)
                                    (summary_data_of texts warehouse_map indices_to_keep);
                                so_far =
                                  [Status ReadingPackingSlips, Status ExtractingProductDetails,
                                   Status GeneratingSummary, Status AnnotatingPackingSlips] @
                                  map (\<lambda>idx. Status (AnnotatingPage (idx + 1)
                                                        (length indices_to_keep)))
                                    [0..<length indices_to_keep] @
                                  [Status SortingPackingSlips]
                            in save_and_correlate r so_far total_pages summary_pages
                                 (sorted_pages_of r warehouse_map packing_slips_pages)
                                 (sorted_indices_of r warehouse_map packing_slips_pages))))"

text \<open>The run gets as far as step 6: a save directory is there, the packing slips
  were read and some page is kept.\<close>

definition reaches_saving :: "('p, 'l) run \<Rightarrow> (string \<rightharpoonup> string) \<Rightarrow> ('p \<times> string) list \<Rightarrow> bool" where
  "reaches_saving r warehouse_map packing_slips_pages =
     (save_path r \<noteq> [] \<and> (save_path_exists r \<or> makedirs_error r = None) \<and>
      packing_slips r = Inr packing_slips_pages \<and> packing_slips_pages \<noteq> [] \<and>
      indices_to_keep_of (map snd packing_slips_pages) warehouse_map \<noteq> [])"

text \<open>The item of \<^verbatim>\<open>pages_with_info\<close> that a kept index contributes: its annotated
  page, its area identifier, the index and its primary product.\<close>

definition page_info ::
  "('p, 'l) run \<Rightarrow> (string \<rightharpoonup> string) \<Rightarrow> ('p \<times> string) list \<Rightarrow> nat \<Rightarrow> 'p \<times> string \<times> nat \<times> string" where
  "page_info r warehouse_map packing_slips_pages idx =
     (let product_details = extract_product_details (snd (packing_slips_pages ! idx)) warehouse_map;
          area_identifier =
            determine_area_identifier (product_areas_of product_details warehouse_map)
      in (add_area_identifier_to_page r (fst (packing_slips_pages ! idx)) area_identifier,
          area_identifier, idx, primary_product_of product_details))"

subsection \<open>Example decks\<close>

text \<open>A warehouse map and a deck of three packing slips: the first page holds a product
  of \<^verbatim>\<open>B11\<close>, the second one of \<^verbatim>\<open>A13\<close>, the third has no items section. The pages are
  named by strings; drawing an identifier appends it to the name.\<close>

definition demo_map :: "string \<rightharpoonup> string" where
  "demo_map = [''classic tee'' \<mapsto> ''B11'', ''wool hat'' \<mapsto> ''A13'', ''runner'' \<mapsto> ''D16'']"

definition demo_slips :: "(string \<times> string) list" where
  "demo_slips =
     [(''slip 0'', join [CHR 0x0A] [''Order 1'', ''ITEMS'', ''Classic Tee'', ''M 2 of 2'', ''SKU 1'']),
      (''slip 1'', join [CHR 0x0A] [''Order 2'', ''ITEMS'', ''Wool Hat'', ''S 1 of 1'']),
      (''slip 2'', ''Gift note'')]"

definition demo_run :: "(string, string) run" where
  "demo_run =
     \<lparr>save_path = ''out'', save_path_exists = True, makedirs_error = None,
      packing_slips = Inr demo_slips,
      shipping_labels = Inr [''label 0'', ''label 1'', ''label 2''],
      add_area_identifier_to_page = (\<lambda>page area_identifier. page @ '' + '' @ area_identifier),
      build_summary_pages = (\<lambda>elements. map fst elements),
      save_slips_error = None, save_labels_error = None\<rparr>"

text \<open>The same run with a label deck of one page, and with a write of the sorted
  packing slips that fails.\<close>

definition mismatch_run :: "(string, string) run" where
  "mismatch_run = demo_run\<lparr>shipping_labels := Inr [''label 0'']\<rparr>"

definition failed_save_run :: "(string, string) run" where
  "failed_save_run = demo_run\<lparr>save_slips_error := Some ''disk full''\<rparr>"

text \<open>A warehouse map that files a product under \<^verbatim>\<open>Unknown Area\<close>, and a deck of two
  slips, the first of which holds that product only.\<close>

definition unlisted_map :: "string \<rightharpoonup> string" where
  "unlisted_map = [''mystery box'' \<mapsto> ''Unknown Area'', ''wool hat'' \<mapsto> ''A13'']"

definition unlisted_slips :: "(string \<times> string) list" where
  "unlisted_slips =
     [(''slip 0'', join [CHR 0x0A] [''ITEMS'', ''Mystery Box'', ''M 1 of 1'']),
      (''slip 1'', join [CHR 0x0A] [''ITEMS'', ''Wool Hat'', ''S 1 of 1''])]"

definition unlisted_run :: "(string, string) run" where
  "unlisted_run =
     demo_run\<lparr>packing_slips := Inr unlisted_slips,
              shipping_labels := Inr [''label 0'', ''label 1'']\<rparr>"

text \<open>A deck of four slips, three of them of area \<^verbatim>\<open>A13\<close>: two hold the same product
  and one a product whose title comes first in string order.\<close>

definition title_map :: "string \<rightharpoonup> string" where
  "title_map = [''wool hat'' \<mapsto> ''A13'', ''alpaca scarf'' \<mapsto> ''A13'', ''classic tee'' \<mapsto> ''B11'']"

definition title_slips :: "(string \<times> string) list" where
  "title_slips =
     [(''slip 0'', join [CHR 0x0A] [''ITEMS'', ''Wool Hat'', ''S 1 of 1'']),
      (''slip 1'', join [CHR 0x0A] [''ITEMS'', ''Classic Tee'', ''M 1 of 1'']),
      (''slip 2'', join [CHR 0x0A] [''ITEMS'', ''Alpaca Scarf'', ''M 1 of 1'']),
      (''slip 3'', join [CHR 0x0A] [''ITEMS'', ''Wool Hat'', ''S 2 of 2''])]"

definition title_run :: "(string, string) run" where
  "title_run =
     demo_run\<lparr>packing_slips := Inr title_slips,
              shipping_labels := Inr [''label 0'', ''label 1'', ''label 2'', ''label 3'']\<rparr>"

section \<open>Properties\<close>

subsection \<open>Strings\<close>

lemma startswith_iff: "startswith s p \<longleftrightarrow> (\<exists>q. s = p @ q)"
  by (induction s p rule: startswith.induct) auto

lemma py_in_iff: "py_in sub s \<longleftrightarrow> (\<exists>p q. s = p @ sub @ q)"
proof (induction s)
  case Nil
  then show ?case by simp
next
  case (Cons c cs)
  show ?case
  proof
    assume "py_in sub (c # cs)"
    then consider "startswith (c # cs) sub" | "py_in sub cs" by auto
    then show "\<exists>p q. c # cs = p @ sub @ q"
    proof cases
      case 1
      then obtain q where "c # cs = sub @ q" by (auto simp: startswith_iff)
      then have "c # cs = [] @ sub @ q" by simp
      then show ?thesis by blast
    next
      case 2
      then obtain p q where "cs = p @ sub @ q" using Cons.IH by auto
      then have "c # cs = (c # p) @ sub @ q" by simp
      then show ?thesis by blast
    qed
  next
    assume "\<exists>p q. c # cs = p @ sub @ q"
    then obtain p q where pq: "c # cs = p @ sub @ q" by blast
    show "py_in sub (c # cs)"
    proof (cases p)
      case Nil
      then have "startswith (c # cs) sub" using pq by (auto simp: startswith_iff)
      then show ?thesis by simp
    next
      case (Cons a p')
      then have "cs = p' @ sub @ q" using pq by simp
      then have "py_in sub cs" using Cons.IH by blast
      then show ?thesis by simp
    qed
  qed
qed

subsection \<open>The sort engine\<close>

lemma takeWhile_until:
  "c \<notin> set x \<Longrightarrow> takeWhile (\<lambda>d. d \<noteq> c) (x @ c # r) = x"
  by (induction x) auto

lemma takeWhile_all_other:
  "c \<notin> set x \<Longrightarrow> takeWhile (\<lambda>d. d \<noteq> c) x = x"
  by (induction x) auto

lemma index_of_less: "x \<in> set xs \<Longrightarrow> index_of xs x < length xs"
  by (induction xs) auto

lemma index_of_nth: "x \<in> set xs \<Longrightarrow> xs ! index_of xs x = x"
  by (induction xs) auto

lemma takeWhile_stops:
  "takeWhile (\<lambda>d. d \<noteq> c) (x @ c # r) = takeWhile (\<lambda>d. d \<noteq> c) x"
  by (induction x) auto

lemma first_token_of_join:
  "takeWhile (\<lambda>c. c \<noteq> CHR '','') (join '', '' (x # xs)) = takeWhile (\<lambda>c. c \<noteq> CHR '','') x"
  by (cases xs) (simp_all add: takeWhile_stops)

text \<open>
  Claim C10. For a page with two or more areas, the label is that of the areas left
  after the removal of \<^verbatim>\<open>B16\<close>, and the sort's primary area is the first
  comma-separated token of the least of these areas in string order: the least area
  itself whenever it holds no comma and no outer white space, as area codes and the two
  sentinels do. It is not the area that \<^verbatim>\<open>AREA_SORT_ORDER\<close> ranks first: the areas
  \<^verbatim>\<open>{B11, D16}\<close> are labelled \<^verbatim>\<open>B11, D16\<close> and sort with the rank of \<^verbatim>\<open>B11\<close>,
  although \<^verbatim>\<open>D16\<close> comes before \<^verbatim>\<open>B11\<close> in \<^verbatim>\<open>AREA_SORT_ORDER\<close>.
\<close>

theorem primary_area_of_least:
  assumes "1 < fcard S"
  shows "(\<exists>x. x |\<in>| (if ''B16'' |\<in>| S then S |-| {|''B16''|} else S) \<and>
              (\<forall>a. a |\<in>| (if ''B16'' |\<in>| S then S |-| {|''B16''|} else S) \<longrightarrow> x \<le> a) \<and>
              get_primary_area (determine_area_identifier S) = get_primary_area x \<and>
              (CHR '','' \<notin> set x \<and> strip x = x \<longrightarrow>
                 get_primary_area (determine_area_identifier S) = x)) \<and>
         determine_area_identifier {|''B11'', ''D16''|} = ''B11, D16'' \<and>
         fst (sort_key_fn (p, determine_area_identifier {|''B11'', ''D16''|}, i, t)) =
           index_of AREA_SORT_ORDER ''B11'' \<and>
         index_of AREA_SORT_ORDER ''D16'' < index_of AREA_SORT_ORDER ''B11''"
proof -
  let ?T = "if ''B16'' |\<in>| S then S |-| {|''B16''|} else S"
  have ident: "determine_area_identifier S = join '', '' (sorted_list_of_fset ?T)"
    using assms(1) by (simp add: determine_area_identifier_def)
  have ne: "?T \<noteq> {||}"
  proof
    assume e: "?T = {||}"
    then have "S |\<subseteq>| {|''B16''|}" by (auto split: if_splits)
    then have "fcard S \<le> fcard {|''B16''|}" by (rule fcard_mono)
    then show False using assms(1) by (simp add: fcard_finsert_if fcard_fempty)
  qed
  have "sorted_list_of_fset ?T \<noteq> []"
  proof
    assume "sorted_list_of_fset ?T = []"
    then have "fset_of_list (sorted_list_of_fset ?T) = {||}" by simp
    then show False using ne by simp
  qed
  then obtain x xs where xxs: "sorted_list_of_fset ?T = x # xs"
    by (cases "sorted_list_of_fset ?T") auto
  have srt: "sorted (x # xs)"
    using xxs by (metis sorted_list_of_fset.rep_eq sorted_sorted_list_of_set)
  have mem: "set (x # xs) = fset ?T"
    using xxs by (metis sorted_list_of_fset_simps(1))
  have xT: "x |\<in>| ?T" using mem by auto
  have least: "\<forall>a. a |\<in>| ?T \<longrightarrow> x \<le> a"
    using srt mem by auto
  have prim: "get_primary_area (determine_area_identifier S) = get_primary_area x"
    by (simp add: get_primary_area_def ident xxs first_token_of_join)
  have "CHR '','' \<notin> set x \<and> strip x = x \<longrightarrow> get_primary_area x = x"
    by (simp add: get_primary_area_def takeWhile_all_other)
  then have code: "CHR '','' \<notin> set x \<and> strip x = x \<longrightarrow>
                 get_primary_area (determine_area_identifier S) = x"
    using prim by simp
  have general: "\<exists>x. x |\<in>| ?T \<and> (\<forall>a. a |\<in>| ?T \<longrightarrow> x \<le> a) \<and>
              get_primary_area (determine_area_identifier S) = get_primary_area x \<and>
              (CHR '','' \<notin> set x \<and> strip x = x \<longrightarrow>
                 get_primary_area (determine_area_identifier S) = x)"
    using xT least prim code by blast
  have e1: "determine_area_identifier {|''B11'', ''D16''|} = ''B11, D16''"
    by code_simp
  have "get_primary_area ''B11, D16'' = ''B11''"
    by code_simp
  then have e2: "fst (sort_key_fn (p, determine_area_identifier {|''B11'', ''D16''|}, i, t)) =
           index_of AREA_SORT_ORDER ''B11''"
    by (simp add: e1 sort_key_fn_def AREA_SORT_ORDER_def)
  have e3: "index_of AREA_SORT_ORDER ''D16'' < index_of AREA_SORT_ORDER ''B11''"
    by (simp add: AREA_SORT_ORDER_def)
  show ?thesis using general e1 e2 e3 by blast
qed

theorem primary_area_of_least_witness:
  "get_primary_area (determine_area_identifier {|''B11'', ''D16''|}) = ''B11'' \<and>
   get_primary_area (determine_area_identifier {|''D16'', ''B16'', ''B12''|}) = ''B12''"
proof -
  have h1: "1 < fcard {|''B11'', ''D16''|}" by code_simp
  have h2: "1 < fcard {|''D16'', ''B16'', ''B12''|}" by code_simp
  have t1: "(if ''B16'' |\<in>| {|''B11'', ''D16''|} then {|''B11'', ''D16''|} |-| {|''B16''|}
             else {|''B11'', ''D16''|}) = {|''B11'', ''D16''|}"
    by simp
  have t2: "(if ''B16'' |\<in>| {|''D16'', ''B16'', ''B12''|}
             then {|''D16'', ''B16'', ''B12''|} |-| {|''B16''|}
             else {|''D16'', ''B16'', ''B12''|}) = {|''D16'', ''B12''|}"
    by auto
  have s1: "CHR '','' \<notin> set ''B11'' \<and> strip ''B11'' = ''B11''"
    and s2: "CHR '','' \<notin> set ''B12'' \<and> strip ''B12'' = ''B12''"
    by (simp_all add: strip_def py_isspace_def)
  have o1: "\<not> ''D16'' \<le> ''B11''" and o2: "\<not> ''D16'' \<le> ''B12''"
    by code_simp+
  obtain x where x: "x |\<in>| {|''B11'', ''D16''|}"
    and xl: "\<forall>a. a |\<in>| {|''B11'', ''D16''|} \<longrightarrow> x \<le> a"
    and xp: "CHR '','' \<notin> set x \<and> strip x = x \<longrightarrow>
       get_primary_area (determine_area_identifier {|''B11'', ''D16''|}) = x"
    using primary_area_of_least [OF h1, of "()" 0 "[]"] unfolding t1 by blast
  have "x \<le> ''B11''" using xl by simp
  moreover have "x = ''B11'' \<or> x = ''D16''" using x by simp
  ultimately have "x = ''B11''" using o1 by blast
  then have a: "get_primary_area (determine_area_identifier {|''B11'', ''D16''|}) = ''B11''"
    using xp s1 by blast
  obtain y where y: "y |\<in>| {|''D16'', ''B12''|}"
    and yl: "\<forall>a. a |\<in>| {|''D16'', ''B12''|} \<longrightarrow> y \<le> a"
    and yp: "CHR '','' \<notin> set y \<and> strip y = y \<longrightarrow>
       get_primary_area (determine_area_identifier {|''D16'', ''B16'', ''B12''|}) = y"
    using primary_area_of_least [OF h2, of "()" 0 "[]"] unfolding t2 by blast
  have "y \<le> ''B12''" using yl by simp
  moreover have "y = ''D16'' \<or> y = ''B12''" using y by simp
  ultimately have "y = ''B12''" using o2 by blast
  then have b: "get_primary_area (determine_area_identifier {|''D16'', ''B16'', ''B12''|}) = ''B12''"
    using yp s2 by blast
  show ?thesis using a b by blast
qed

subsection \<open>The area resolver\<close>

text \<open>
  Claim C4. For every title and every warehouse map: when the lower-cased title
  contains \<^verbatim>\<open>sample\<close> the resolver answers \<^verbatim>\<open>garage\<close>, whatever the map holds for the
  title; otherwise it answers the area stored under exactly that title; otherwise the
  sentinel \<^verbatim>\<open>Unknown Area\<close>. The answer depends on the map through the entry of the
  title alone, so no other key (a longer, shorter or similar one) can match.
\<close>

theorem get_warehouse_area_resolves:
  "(py_in ''sample'' (lower t) \<longrightarrow> get_warehouse_area t m = ''garage'') \<and>
   (\<not> py_in ''sample'' (lower t) \<and> m t = Some a \<longrightarrow> get_warehouse_area t m = a) \<and>
   (\<not> py_in ''sample'' (lower t) \<and> m t = None \<longrightarrow> get_warehouse_area t m = ''Unknown Area'') \<and>
   (m t = m' t \<longrightarrow> get_warehouse_area t m = get_warehouse_area t m')"
  by (simp add: get_warehouse_area_def)

theorem get_warehouse_area_resolves_witness:
  "get_warehouse_area ''Free SAMPLE pack'' [''Free SAMPLE pack'' \<mapsto> ''A13''] = ''garage'' \<and>
   get_warehouse_area ''tee'' [''tee'' \<mapsto> ''A13''] = ''A13'' \<and>
   get_warehouse_area ''tee'' [''tees'' \<mapsto> ''A13'', ''te'' \<mapsto> ''B11''] = ''Unknown Area'' \<and>
   get_warehouse_area ''tee'' [''tee'' \<mapsto> ''A13'', ''hat'' \<mapsto> ''B11''] =
     get_warehouse_area ''tee'' [''tee'' \<mapsto> ''A13'']"
proof -
  have s: "py_in ''sample'' (lower ''Free SAMPLE pack'')"
    by code_simp
  have n: "\<not> py_in ''sample'' (lower ''tee'')"
    by code_simp
  have m2: "[''tee'' \<mapsto> ''A13''] ''tee'' = Some ''A13''"
    by simp
  have m3: "[''tees'' \<mapsto> ''A13'', ''te'' \<mapsto> ''B11''] ''tee'' = None"
    by simp
  have m4: "[''tee'' \<mapsto> ''A13'', ''hat'' \<mapsto> ''B11''] ''tee'' = [''tee'' \<mapsto> ''A13''] ''tee''"
    by simp
  have c1: "get_warehouse_area ''Free SAMPLE pack'' [''Free SAMPLE pack'' \<mapsto> ''A13''] = ''garage''"
    using s get_warehouse_area_resolves
        [of "''Free SAMPLE pack''" "[''Free SAMPLE pack'' \<mapsto> ''A13'']" "''A13''"
            "[''Free SAMPLE pack'' \<mapsto> ''A13'']"]
    by blast
  have c2: "get_warehouse_area ''tee'' [''tee'' \<mapsto> ''A13''] = ''A13''"
    using n m2 get_warehouse_area_resolves
        [of "''tee''" "[''tee'' \<mapsto> ''A13'']" "''A13''" "[''tee'' \<mapsto> ''A13'']"]
    by blast
  have c3: "get_warehouse_area ''tee'' [''tees'' \<mapsto> ''A13'', ''te'' \<mapsto> ''B11''] = ''Unknown Area''"
    using n m3 get_warehouse_area_resolves
        [of "''tee''" "[''tees'' \<mapsto> ''A13'', ''te'' \<mapsto> ''B11'']" "''A13''"
            "[''tees'' \<mapsto> ''A13'', ''te'' \<mapsto> ''B11'']"]
    by blast
  have c4: "get_warehouse_area ''tee'' [''tee'' \<mapsto> ''A13'', ''hat'' \<mapsto> ''B11''] =
      get_warehouse_area ''tee'' [''tee'' \<mapsto> ''A13'']"
    using m4 get_warehouse_area_resolves
        [of "''tee''" "[''tee'' \<mapsto> ''A13'', ''hat'' \<mapsto> ''B11'']" "''A13''" "[''tee'' \<mapsto> ''A13'']"]
    by blast
  show ?thesis
    using c1 c2 c3 c4 by blast
qed

subsection \<open>The area identifier\<close>

text \<open>
  Claim C5. The identifier of a set of areas is the \<^verbatim>\<open>', '\<close>-joined list of its members
  in ascending order, each once; when the set has more than one member and holds
  \<^verbatim>\<open>B16\<close>, the list is that of the set without \<^verbatim>\<open>B16\<close>. So \<^verbatim>\<open>{B16}\<close> gives \<^verbatim>\<open>B16\<close>,
  \<^verbatim>\<open>{B16, D16}\<close> gives \<^verbatim>\<open>D16\<close> and \<^verbatim>\<open>{A13, D16}\<close> gives \<^verbatim>\<open>A13, D16\<close>.
\<close>

theorem determine_area_identifier_composes:
  "(\<exists>xs. determine_area_identifier S = join '', '' xs \<and> sorted xs \<and> distinct xs \<and>
         fset_of_list xs =
           (if ''B16'' |\<in>| S \<and> 1 < fcard S then S |-| {|''B16''|} else S)) \<and>
   determine_area_identifier {|''B16''|} = ''B16'' \<and>
   determine_area_identifier {|''B16'', ''D16''|} = ''D16'' \<and>
   determine_area_identifier {|''A13'', ''D16''|} = ''A13, D16''"
proof -
  let ?T = "if ''B16'' |\<in>| S \<and> 1 < fcard S then S |-| {|''B16''|} else S"
  have "determine_area_identifier S = join '', '' (sorted_list_of_fset ?T)"
    by (simp add: determine_area_identifier_def)
  moreover have "sorted (sorted_list_of_fset ?T)" "distinct (sorted_list_of_fset ?T)"
    by (simp_all add: sorted_list_of_fset.rep_eq)
  moreover have "fset_of_list (sorted_list_of_fset ?T) = ?T"
    by simp
  ultimately have general:
    "\<exists>xs. determine_area_identifier S = join '', '' xs \<and> sorted xs \<and> distinct xs \<and>
          fset_of_list xs = ?T"
    by blast
  have e1: "determine_area_identifier {|''B16''|} = ''B16''"
    by code_simp
  have e2: "determine_area_identifier {|''B16'', ''D16''|} = ''D16''"
    by code_simp
  have e3: "determine_area_identifier {|''A13'', ''D16''|} = ''A13, D16''"
    by code_simp
  show ?thesis
    using general e1 e2 e3 by blast
qed

subsection \<open>The summary aggregator\<close>

text \<open>What \<^verbatim>\<open>int\<close> refuses: a string that holds one of the separators
  \<^verbatim>\<open>\x1c .. \x1f\<close>, which \<^verbatim>\<open>str.strip\<close> would drop, and a string of more than 4300
  digits.\<close>

lemma digits_ok_chars:
  "digits_ok s \<Longrightarrow> c \<in> set s \<Longrightarrow> is_digit c \<or> c = CHR ''_''"
  by (induction s rule: digits_ok.induct) (auto split: if_splits)

lemma set_int_strip:
  "\<not> int_isspace c \<Longrightarrow>
     c \<in> set (rev (dropWhile int_isspace (rev (dropWhile int_isspace s)))) \<longleftrightarrow> c \<in> set s"
proof -
  assume c: "\<not> int_isspace c"
  have d: "c \<in> set (dropWhile int_isspace xs) \<longleftrightarrow> c \<in> set xs" for xs
    using c by (induction xs) auto
  show ?thesis by (simp add: d)
qed

lemma filter_int_strip:
  "filter is_digit (rev (dropWhile int_isspace (rev (dropWhile int_isspace s)))) = filter is_digit s"
proof -
  have n: "is_digit c \<Longrightarrow> \<not> int_isspace c" for c
    by (auto simp: is_digit_def int_isspace_def)
  have d: "filter is_digit (dropWhile int_isspace xs) = filter is_digit xs" for xs
    using n by (induction xs) auto
  have "filter is_digit (rev (dropWhile int_isspace (rev (dropWhile int_isspace s))))
          = rev (filter is_digit (dropWhile int_isspace (rev (dropWhile int_isspace s))))"
    by (simp add: rev_filter)
  also have "\<dots> = rev (filter is_digit (rev (dropWhile int_isspace s)))"
    by (simp only: d)
  also have "\<dots> = filter is_digit (dropWhile int_isspace s)"
    by (simp add: rev_filter)
  also have "\<dots> = filter is_digit s"
    by (rule d)
  finally show ?thesis .
qed

lemma py_int_separator:
  assumes "c \<in> set [CHR 0x1C, CHR 0x1D, CHR 0x1E, CHR 0x1F]" and "c \<in> set s"
  shows "py_int s = None"
proof -
  define t where "t = rev (dropWhile int_isspace (rev (dropWhile int_isspace s)))"
  define body where
    "body = (if t \<noteq> [] \<and> (hd t = CHR ''-'' \<or> hd t = CHR ''+'') then tl t else t)"
  have ns: "\<not> int_isspace c" and nd: "\<not> is_digit c" and nu: "c \<noteq> CHR ''_''"
    and nm: "c \<noteq> CHR ''-''" and np: "c \<noteq> CHR ''+''"
    using assms(1) by (auto simp: int_isspace_def is_digit_def)
  have "c \<in> set t"
    unfolding t_def using set_int_strip [OF ns, of s] assms(2) by blast
  then have "c \<in> set body"
    using nm np by (cases t) (auto simp: body_def)
  then have "\<not> digits_ok body"
    using digits_ok_chars [of body c] nd nu by blast
  then show ?thesis
    by (simp add: py_int_def Let_def t_def [symmetric] body_def [symmetric])
qed

lemma py_int_digit_limit:
  assumes "int_max_str_digits < length (filter is_digit s)"
  shows "py_int s = None"
proof -
  define t where "t = rev (dropWhile int_isspace (rev (dropWhile int_isspace s)))"
  define body where
    "body = (if t \<noteq> [] \<and> (hd t = CHR ''-'' \<or> hd t = CHR ''+'') then tl t else t)"
  have "filter is_digit t = filter is_digit s"
    by (simp only: t_def filter_int_strip)
  moreover have "filter is_digit body = filter is_digit t"
    by (cases t) (auto simp: body_def is_digit_def)
  moreover have "length (filter is_digit body) \<le> length (filter (\<lambda>c. c \<noteq> CHR ''_'') body)"
  proof -
    have "filter is_digit body = filter is_digit (filter (\<lambda>c. c \<noteq> CHR ''_'') body)"
      by (auto simp: is_digit_def intro: filter_cong)
    then show ?thesis
      by (metis length_filter_le)
  qed
  ultimately have "int_max_str_digits < length (filter (\<lambda>c. c \<noteq> CHR ''_'') body)"
    using assms by simp
  then show ?thesis
    by (simp add: py_int_def Let_def t_def [symmetric] body_def [symmetric])
qed

lemma py_int_examples:
  "py_int ''5'' = Some 5 \<and> py_int '' 12 '' = Some 12 \<and> py_int ''-3'' = Some (- 3) \<and>
   py_int ''1_000'' = Some 1000 \<and> py_int ''two'' = None \<and> py_int [] = None \<and>
   py_int [CHR 0x1C, CHR ''5''] = None \<and> py_int [CHR ''5'', CHR 0x1F] = None \<and>
   py_int [CHR 0x09, CHR ''5'', CHR 0x0A] = Some 5"
  by code_simp

lemma parsed_quantities_Nil [simp]: "parsed_quantities k [] = []"
  by (simp add: parsed_quantities_def List.map_filter_simps)

lemma parsed_quantities_Cons:
  "parsed_quantities k ((t, s, q) # xs) =
     (if (t, s) = k then (case py_int q of None \<Rightarrow> parsed_quantities k xs
                                          | Some n \<Rightarrow> n # parsed_quantities k xs)
      else parsed_quantities k xs)"
  by (simp add: parsed_quantities_def List.map_filter_simps split: option.splits)

lemma merge_quantities_distinct:
  "distinct (map fst up) \<Longrightarrow> distinct (map fst (fst (merge_quantities xs up w)))"
  by (induction xs up w rule: merge_quantities.induct)
     (auto simp: distinct_update split: option.splits)

lemma merge_quantities_lookup:
  "map_of (fst (merge_quantities xs up w)) k =
     (if parsed_quantities k xs = [] then map_of up k
      else Some ((case map_of up k of None \<Rightarrow> 0 | Some v \<Rightarrow> v) +
                 sum_list (parsed_quantities k xs)))"
proof (induction xs up w rule: merge_quantities.induct)
  case (1 up w)
  then show ?case by simp
next
  case (2 t s q rest up w)
  show ?case
  proof (cases "py_int q")
    case None
    then show ?thesis using 2(1) by (simp add: parsed_quantities_Cons)
  next
    case (Some n)
    note parsed = this
    show ?thesis
    proof (cases "map_of up (t, s)")
      case None
      then show ?thesis
        using parsed 2(2) [OF parsed None]
        by (auto simp: parsed_quantities_Cons update_conv')
    next
      case (Some current)
      then show ?thesis
        using parsed 2(3) [OF parsed Some]
        by (auto simp: parsed_quantities_Cons update_conv')
    qed
  qed
qed

lemma merge_quantities_warnings:
  "snd (merge_quantities xs up w) =
     w @ map invalid_quantity_warning (filter (\<lambda>(t, s, q). py_int q = None) xs)"
  by (induction xs up w rule: merge_quantities.induct) (auto split: option.splits)

lemma parsed_quantities_mset:
  "mset (parsed_quantities k xs) =
     image_mset (\<lambda>(t, s, q). the (py_int q))
       (filter_mset (\<lambda>(t, s, q). (t, s) = k \<and> py_int q \<noteq> None) (mset xs))"
  by (induction xs) (auto simp: parsed_quantities_Cons split: option.splits if_splits)

lemma parsed_quantities_sorted:
  "mset (parsed_quantities k (sorted_products_of xs)) = mset (parsed_quantities k xs)"
  by (simp add: parsed_quantities_mset sorted_products_of_def py_sorted_def)

lemma sum_list_mset_cong: "mset xs = mset ys \<Longrightarrow> sum_list xs = sum_list (ys :: int list)"
  by (metis sum_mset_sum_list)

lemma Nil_mset_cong: "mset xs = mset ys \<Longrightarrow> xs = [] \<longleftrightarrow> ys = []"
  by (metis mset_zero_iff)

lemma summary_elements_member:
  "summary_data area = Some products \<Longrightarrow> area \<in> set AREA_SORT_ORDER \<Longrightarrow>
   1 < length (table_data products) \<Longrightarrow>
   (area_title_of area, table_data products) \<in> set (summary_elements summary_data)"
  by (force simp: summary_elements_def Let_def)

lemma table_rows:
  "tl (table_data products) =
     map (\<lambda>((product_title, size'), quantity). [product_title, size', py_str quantity])
       (fst (unique_products_of products))"
  by (simp add: table_data_def)

lemma table_row_iff:
  "[t, s, x] \<in> set (tl (table_data products)) \<longleftrightarrow>
     parsed_quantities (t, s) products \<noteq> [] \<and>
     x = py_str (sum_list (parsed_quantities (t, s) products))"
proof -
  let ?d = "fst (unique_products_of products)"
  have d: "distinct (map fst ?d)"
    by (simp add: unique_products_of_def merge_quantities_distinct)
  have l: "map_of ?d (t, s) =
     (if parsed_quantities (t, s) products = [] then None
      else Some (sum_list (parsed_quantities (t, s) products)))"
    using parsed_quantities_sorted [of "(t, s)" products]
    by (auto simp: unique_products_of_def merge_quantities_lookup
          dest: sum_list_mset_cong Nil_mset_cong)
  have "[t, s, x] \<in> set (tl (table_data products)) \<longleftrightarrow>
        (\<exists>n. ((t, s), n) \<in> set ?d \<and> x = py_str n)"
    by (force simp: table_rows image_iff)
  also have "\<dots> \<longleftrightarrow> (\<exists>n. map_of ?d (t, s) = Some n \<and> x = py_str n)"
    using d by simp
  also have "\<dots> \<longleftrightarrow> parsed_quantities (t, s) products \<noteq> [] \<and>
     x = py_str (sum_list (parsed_quantities (t, s) products))"
    by (auto simp: l)
  finally show ?thesis .
qed

lemma table_rows_one_per_pair:
  "distinct (map (\<lambda>row. (row ! 0, row ! 1)) (tl (table_data products)))"
proof -
  have "map (\<lambda>row. (row ! 0, row ! 1)) (tl (table_data products)) =
        map fst (fst (unique_products_of products))"
    by (simp add: table_rows comp_def case_prod_beta)
  then show ?thesis
    by (simp add: unique_products_of_def merge_quantities_distinct)
qed

text \<open>
  Claim C7. In the bucket of an area the dictionary \<^verbatim>\<open>unique_products\<close> has one entry
  for each \<^verbatim>\<open>(product_title, size)\<close> pair that has an entry whose quantity parses as
  an integer, and its value is the sum of the parsed quantities of the entries of that
  pair; a pair without such an entry has none, and every entry whose quantity does not
  parse is logged with a warning and adds nothing. The table of the area is the header
  and one row per entry of the dictionary: a row \<^verbatim>\<open>[title, size, x]\<close> is in the table
  exactly when some quantity of the pair parses and \<^verbatim>\<open>x\<close> is the sum written out, and no
  two rows share their title and size. The table is the section of the area in the
  manifest when it has a row. The entries \<^verbatim>\<open>(Tee, M, 2)\<close> and \<^verbatim>\<open>(Tee, M, 3)\<close> give the
  one row \<^verbatim>\<open>(Tee, M, 5)\<close>; with \<^verbatim>\<open>two\<close>, or with a \<^verbatim>\<open>5\<close> behind the separator
  \<^verbatim>\<open>\x1c\<close>, for the first quantity the row is \<^verbatim>\<open>(Tee, M, 3)\<close> and one warning is logged.
\<close>

theorem quantities_merge:
  "distinct (map fst (fst (unique_products_of products))) \<and>
   map_of (fst (unique_products_of products)) k =
     (if parsed_quantities k products = [] then None
      else Some (sum_list (parsed_quantities k products))) \<and>
   mset (snd (unique_products_of products)) =
     mset (map invalid_quantity_warning (filter (\<lambda>(t, s, q). py_int q = None) products)) \<and>
   table_data products =
     [''Product Title'', ''Size'', ''Quantity''] #
     map (\<lambda>((product_title, size'), quantity). [product_title, size', py_str quantity])
       (fst (unique_products_of products)) \<and>
   ([t, s, x] \<in> set (tl (table_data products)) \<longleftrightarrow>
      parsed_quantities (t, s) products \<noteq> [] \<and>
      x = py_str (sum_list (parsed_quantities (t, s) products))) \<and>
   distinct (map (\<lambda>row. (row ! 0, row ! 1)) (tl (table_data products))) \<and>
   (summary_data area = Some products \<and> area \<in> set AREA_SORT_ORDER \<and>
    1 < length (table_data products) \<longrightarrow>
      (area_title_of area, table_data products) \<in> set (summary_elements summary_data)) \<and>
   table_data [(''Tee'', ''M'', ''2''), (''Tee'', ''M'', ''3'')] =
     [[''Product Title'', ''Size'', ''Quantity''], [''Tee'', ''M'', ''5'']] \<and>
   unique_products_of [(''Tee'', ''M'', ''two''), (''Tee'', ''M'', ''3'')] =
     ([((''Tee'', ''M''), 3)], [invalid_quantity_warning (''Tee'', ''M'', ''two'')]) \<and>
   unique_products_of [(''Tee'', ''M'', [CHR 0x1C, CHR ''5'']), (''Tee'', ''M'', ''3'')] =
     ([((''Tee'', ''M''), 3)],
      [invalid_quantity_warning (''Tee'', ''M'', [CHR 0x1C, CHR ''5''])])"
proof -
  have d: "distinct (map fst (fst (unique_products_of products)))"
    by (simp add: unique_products_of_def merge_quantities_distinct)
  have l: "map_of (fst (unique_products_of products)) k =
     (if parsed_quantities k products = [] then None
      else Some (sum_list (parsed_quantities k products)))"
    using parsed_quantities_sorted [of k products]
    by (auto simp: unique_products_of_def merge_quantities_lookup
          dest: sum_list_mset_cong Nil_mset_cong)
  have w: "mset (snd (unique_products_of products)) =
     mset (map invalid_quantity_warning (filter (\<lambda>(t, s, q). py_int q = None) products))"
    by (simp add: unique_products_of_def merge_quantities_warnings sorted_products_of_def
          py_sorted_def)
  have r1: "table_data products =
     [''Product Title'', ''Size'', ''Quantity''] #
     map (\<lambda>((product_title, size'), quantity). [product_title, size', py_str quantity])
       (fst (unique_products_of products))"
    by (simp add: table_data_def)
  have r2: "[t, s, x] \<in> set (tl (table_data products)) \<longleftrightarrow>
      parsed_quantities (t, s) products \<noteq> [] \<and>
      x = py_str (sum_list (parsed_quantities (t, s) products))"
    by (rule table_row_iff)
  have r3: "distinct (map (\<lambda>row. (row ! 0, row ! 1)) (tl (table_data products)))"
    by (rule table_rows_one_per_pair)
  have m: "summary_data area = Some products \<and> area \<in> set AREA_SORT_ORDER \<and>
    1 < length (table_data products) \<longrightarrow>
      (area_title_of area, table_data products) \<in> set (summary_elements summary_data)"
    using summary_elements_member by blast
  have e1: "table_data [(''Tee'', ''M'', ''2''), (''Tee'', ''M'', ''3'')] =
     [[''Product Title'', ''Size'', ''Quantity''], [''Tee'', ''M'', ''5'']]"
    by code_simp
  have e2: "unique_products_of [(''Tee'', ''M'', ''two''), (''Tee'', ''M'', ''3'')] =
     ([((''Tee'', ''M''), 3)], [invalid_quantity_warning (''Tee'', ''M'', ''two'')])"
    by code_simp
  have e3: "unique_products_of [(''Tee'', ''M'', [CHR 0x1C, CHR ''5'']), (''Tee'', ''M'', ''3'')] =
     ([((''Tee'', ''M''), 3)],
      [invalid_quantity_warning (''Tee'', ''M'', [CHR 0x1C, CHR ''5''])])"
    by code_simp
  show ?thesis using d l w r1 r2 r3 m e1 e2 e3 by blast
qed

theorem quantities_merge_witness:
  "(''Locker: A13'', [[''Product Title'', ''Size'', ''Quantity''], [''Tee'', ''M'', ''5'']])
     \<in> set (summary_elements [''A13'' \<mapsto> [(''Tee'', ''M'', ''2''), (''Tee'', ''M'', ''3'')]]) \<and>
   map_of (fst (unique_products_of [(''Tee'', ''M'', ''2''), (''Tee'', ''M'', ''3'')]))
     (''Tee'', ''M'') = Some 5 \<and>
   map_of (fst (unique_products_of [(''Tee'', ''M'', ''two'')])) (''Tee'', ''M'') = None \<and>
   [''Tee'', ''M'', ''5''] \<in> set (tl (table_data [(''Tee'', ''M'', ''2''), (''Tee'', ''M'', ''3'')])) \<and>
   [''Tee'', ''M'', ''0''] \<notin> set (tl (table_data [(''Tee'', ''M'', ''two'')]))"
proof -
  let ?ps = "[(''Tee'', ''M'', ''2''), (''Tee'', ''M'', ''3'')]"
  let ?sd = "[''A13'' \<mapsto> ?ps]"
  have td: "table_data ?ps = [[''Product Title'', ''Size'', ''Quantity''], [''Tee'', ''M'', ''5'']]"
    by code_simp
  have h1: "?sd ''A13'' = Some ?ps" by simp
  have h2: "''A13'' \<in> set AREA_SORT_ORDER" by (simp add: AREA_SORT_ORDER_def)
  have h3: "1 < length (table_data ?ps)" by (simp add: td)
  have t: "area_title_of ''A13'' = ''Locker: A13''" by code_simp
  have pq: "parsed_quantities (''Tee'', ''M'') ?ps = [2, 3]" by code_simp
  have pn: "parsed_quantities (''Tee'', ''M'') [(''Tee'', ''M'', ''two'')] = []" by code_simp
  have five: "py_str (sum_list [2, 3]) = ''5''" by code_simp
  have a: "(''Locker: A13'', [[''Product Title'', ''Size'', ''Quantity''], [''Tee'', ''M'', ''5'']])
     \<in> set (summary_elements ?sd)"
    using h1 h2 h3 quantities_merge [of ?ps "(''Tee'', ''M'')" "''Tee''" "''M''" "''5''" ?sd "''A13''"]
    unfolding td t by blast
  have b: "map_of (fst (unique_products_of ?ps)) (''Tee'', ''M'') = Some 5"
    using quantities_merge [of ?ps "(''Tee'', ''M'')" "''Tee''" "''M''" "''5''" ?sd "''A13''"]
    by (simp add: pq)
  have c: "map_of (fst (unique_products_of [(''Tee'', ''M'', ''two'')])) (''Tee'', ''M'') = None"
    using quantities_merge [of "[(''Tee'', ''M'', ''two'')]" "(''Tee'', ''M'')" "''Tee''" "''M''"
        "''0''" ?sd "''A13''"]
    by (simp add: pn)
  have "[''Tee'', ''M'', ''5''] \<in> set (tl (table_data ?ps)) \<longleftrightarrow>
      parsed_quantities (''Tee'', ''M'') ?ps \<noteq> [] \<and>
      ''5'' = py_str (sum_list (parsed_quantities (''Tee'', ''M'') ?ps))"
    using quantities_merge [of ?ps "(''Tee'', ''M'')" "''Tee''" "''M''" "''5''" ?sd "''A13''"]
    by blast
  then have d: "[''Tee'', ''M'', ''5''] \<in> set (tl (table_data ?ps))"
    unfolding pq five by simp
  have "[''Tee'', ''M'', ''0''] \<in> set (tl (table_data [(''Tee'', ''M'', ''two'')])) \<longleftrightarrow>
      parsed_quantities (''Tee'', ''M'') [(''Tee'', ''M'', ''two'')] \<noteq> [] \<and>
      ''0'' = py_str (sum_list (parsed_quantities (''Tee'', ''M'') [(''Tee'', ''M'', ''two'')]))"
    using quantities_merge [of "[(''Tee'', ''M'', ''two'')]" "(''Tee'', ''M'')" "''Tee''" "''M''"
        "''0''" ?sd "''A13''"]
    by blast
  then have e: "[''Tee'', ''M'', ''0''] \<notin> set (tl (table_data [(''Tee'', ''M'', ''two'')]))"
    unfolding pn by simp
  show ?thesis using a b c d e by blast
qed

subsection \<open>The page plan of a run\<close>

lemma indices_to_keep_bound:
  "idx \<in> set (indices_to_keep_of texts wm) \<Longrightarrow> idx < length texts"
  by (auto simp: indices_to_keep_of_def)

lemma indices_to_keep_distinct: "distinct (indices_to_keep_of texts wm)"
  by (simp add: indices_to_keep_of_def)

lemma zip_four:
  "zip (map a xs) (zip (map b xs) (zip xs (map d xs))) = map (\<lambda>x. (a x, b x, x, d x)) xs"
  by (induction xs) auto

lemma zip_two: "zip (map a xs) (map b xs) = map (\<lambda>x. (a x, b x)) xs"
  by (induction xs) auto

lemma pages_with_info_map:
  "pages_with_info_of r wm pages =
     map (page_info r wm pages) (indices_to_keep_of (map snd pages) wm)"
proof -
  have "\<forall>idx \<in> set (indices_to_keep_of (map snd pages) wm). map snd pages ! idx = snd (pages ! idx)"
    using indices_to_keep_bound by fastforce
  then show ?thesis
    unfolding pages_with_info_of_def Let_def
    by (simp add: zip_two zip_four comp_def page_info_def Let_def cong: map_cong)
qed

lemma sorted_info_nth:
  assumes "i < length (indices_to_keep_of (map snd pages) wm)"
  shows "\<exists>idx \<in> set (indices_to_keep_of (map snd pages) wm).
           py_sorted sort_key_fn (pages_with_info_of r wm pages) ! i = page_info r wm pages idx"
proof -
  let ?S = "py_sorted sort_key_fn (pages_with_info_of r wm pages)"
  have len: "length ?S = length (indices_to_keep_of (map snd pages) wm)"
    by (simp add: py_sorted_def pages_with_info_map)
  then have "?S ! i \<in> set ?S" using assms by simp
  then have "?S ! i \<in> set (pages_with_info_of r wm pages)"
    by (simp add: py_sorted_def)
  then show ?thesis by (auto simp: pages_with_info_map)
qed

lemma page_info_index [simp]: "fst (snd (snd (page_info r wm pages idx))) = idx"
  by (simp add: page_info_def Let_def)

lemma sorted_indices_mset:
  "mset (sorted_indices_of r wm pages) = mset (indices_to_keep_of (map snd pages) wm)"
proof -
  have "mset (sorted_indices_of r wm pages) =
        image_mset (\<lambda>item. fst (snd (snd item))) (mset (pages_with_info_of r wm pages))"
    by (simp add: sorted_indices_of_def py_sorted_def)
  also have "\<dots> = mset (indices_to_keep_of (map snd pages) wm)"
    by (simp add: pages_with_info_map image_mset.compositionality comp_def)
  finally show ?thesis .
qed

lemma sorted_indices_bound:
  "idx \<in> set (sorted_indices_of r wm pages) \<Longrightarrow> idx < length pages"
  using sorted_indices_mset [of r wm pages] indices_to_keep_bound [of idx "map snd pages" wm]
  by (metis length_map set_mset_mset)

lemma sorted_lengths:
  "length (sorted_indices_of r wm pages) = length (indices_to_keep_of (map snd pages) wm)"
  "length (sorted_pages_of r wm pages) = length (indices_to_keep_of (map snd pages) wm)"
  by (simp_all add: sorted_indices_of_def sorted_pages_of_def py_sorted_def pages_with_info_map)

lemma labels_written:
  assumes "sorted_shipping_labels_pdf (process_packing_slips_and_labels r wm) = Some label_out"
  shows "\<exists>pages labels.
           packing_slips r = Inr pages \<and> shipping_labels r = Inr labels \<and>
           length labels = length pages \<and>
           label_out = map (\<lambda>page_index. labels ! page_index)
                         (filter (\<lambda>page_index. page_index < length labels)
                            (sorted_indices_of r wm pages)) \<and>
           sorted_packing_slips_pdf (process_packing_slips_and_labels r wm) =
             (case save_slips_error r of
                None \<Rightarrow> Some (create_summary_pdf_page (build_summary_pages r)
                                 (summary_data_of (map snd pages) wm
                                    (indices_to_keep_of (map snd pages) wm)) @
                               sorted_pages_of r wm pages)
              | Some e \<Rightarrow> None)"
  using assms
  by (auto simp: process_packing_slips_and_labels_def save_and_correlate_def Let_def
      split: if_splits option.splits sum.splits)


lemma sorted_nth_info:
  assumes "i < length (sorted_indices_of r wm pages)"
  shows "py_sorted sort_key_fn (pages_with_info_of r wm pages) ! i =
           page_info r wm pages (sorted_indices_of r wm pages ! i)"
proof -
  have i: "i < length (indices_to_keep_of (map snd pages) wm)"
    using assms by (simp add: sorted_lengths)
  then obtain idx where
    "py_sorted sort_key_fn (pages_with_info_of r wm pages) ! i = page_info r wm pages idx"
    using sorted_info_nth [of i pages wm r] by blast
  moreover have "i < length (py_sorted sort_key_fn (pages_with_info_of r wm pages))"
    using i by (simp add: py_sorted_def pages_with_info_map)
  ultimately show ?thesis
    by (simp add: sorted_indices_of_def)
qed

lemma sorted_wrt_filter_nth:
  "sorted_wrt R (filter P xs) \<Longrightarrow> i < j \<Longrightarrow> j < length xs \<Longrightarrow> P (xs ! i) \<Longrightarrow> P (xs ! j) \<Longrightarrow>
     R (xs ! i) (xs ! j)"
proof (induction xs arbitrary: i j)
  case Nil
  then show ?case by simp
next
  case (Cons x xs)
  obtain j' where j: "j = Suc j'" using Cons.prems(2) by (cases j) auto
  show ?case
  proof (cases i)
    case 0
    have "xs ! j' \<in> set (filter P xs)"
      using Cons.prems(3,5) j by simp
    then show ?thesis
      using Cons.prems(1,4) 0 j by simp
  next
    case (Suc i')
    have "sorted_wrt R (filter P xs)"
      using Cons.prems(1) by (cases "P x") simp_all
    then have "R (xs ! i') (xs ! j')"
      using Cons.IH [of i' j'] Cons.prems Suc j by simp
    then show ?thesis using Suc j by simp
  qed
qed

lemma indices_to_keep_ascending: "sorted_wrt (<) (indices_to_keep_of texts wm)"
  by (simp add: indices_to_keep_of_def sorted_wrt_filter)

lemma sorted_indices_stable:
  fixes r :: "('p, 'l) run"
  assumes "i < j" and "j < length (sorted_indices_of r wm pages)"
    and "sort_key_fn (page_info r wm pages (sorted_indices_of r wm pages ! i)) =
         sort_key_fn (page_info r wm pages (sorted_indices_of r wm pages ! j))"
  shows "sorted_indices_of r wm pages ! i < sorted_indices_of r wm pages ! j"
proof -
  define S where "S = py_sorted sort_key_fn (pages_with_info_of r wm pages)"
  define kept where "kept = indices_to_keep_of (map snd pages) wm"
  define k where "k = sort_key_fn (S ! i)"
  define same_key where "same_key = (\<lambda>x :: 'p \<times> string \<times> nat \<times> string. sort_key_fn x = k)"
  define earlier where
    "earlier = (\<lambda>(a :: 'p \<times> string \<times> nat \<times> string) (b :: 'p \<times> string \<times> nat \<times> string).
                 fst (snd (snd a)) < fst (snd (snd b)))"
  have si_def: "sorted_indices_of r wm pages = map (\<lambda>item. fst (snd (snd item))) S"
    by (simp add: sorted_indices_of_def S_def)
  have len: "length S = length (sorted_indices_of r wm pages)"
    by (simp add: si_def)
  have il: "i < length S" and jl: "j < length S"
    using assms(1,2) len by simp_all
  have i': "i < length (sorted_indices_of r wm pages)" using il len by simp
  have si: "S ! i = page_info r wm pages (sorted_indices_of r wm pages ! i)"
    unfolding S_def by (rule sorted_nth_info [OF i'])
  have sj: "S ! j = page_info r wm pages (sorted_indices_of r wm pages ! j)"
    unfolding S_def by (rule sorted_nth_info [OF assms(2)])
  have pi: "same_key (S ! i)" by (simp add: same_key_def k_def)
  have pj: "same_key (S ! j)" using si sj assms(3) by (simp add: same_key_def k_def)
  have "filter same_key S = filter same_key (map (page_info r wm pages) kept)"
    by (simp add: S_def kept_def same_key_def py_sorted_def sort_key_stable pages_with_info_map)
  then have "map (\<lambda>item. fst (snd (snd item))) (filter same_key S) =
        filter (\<lambda>idx. same_key (page_info r wm pages idx)) kept"
    by (simp add: filter_map comp_def)
  moreover have "sorted_wrt (<) (filter (\<lambda>idx. same_key (page_info r wm pages idx)) kept)"
    unfolding kept_def using indices_to_keep_ascending by (rule sorted_wrt_filter)
  ultimately have "sorted_wrt (<) (map (\<lambda>item. fst (snd (snd item))) (filter same_key S))"
    by simp
  then have sw: "sorted_wrt earlier (filter same_key S)"
    by (simp add: sorted_wrt_map earlier_def)
  have "earlier (S ! i) (S ! j)"
    using sw assms(1) jl pi pj by (rule sorted_wrt_filter_nth)
  then show ?thesis
    using il jl by (simp add: earlier_def si_def)
qed

lemma sorted_indices_ascend:
  assumes "i < j" and "j < length (sorted_indices_of r wm pages)"
  shows "sort_key_fn (page_info r wm pages (sorted_indices_of r wm pages ! i)) \<le>
         sort_key_fn (page_info r wm pages (sorted_indices_of r wm pages ! j))"
proof -
  let ?S = "py_sorted sort_key_fn (pages_with_info_of r wm pages)"
  have len: "length ?S = length (sorted_indices_of r wm pages)"
    by (simp add: sorted_indices_of_def)
  have i: "i < length (sorted_indices_of r wm pages)" using assms by simp
  have "sorted (map sort_key_fn ?S)" by (simp add: py_sorted_def)
  then have "map sort_key_fn ?S ! i \<le> map sort_key_fn ?S ! j"
    using assms len by (simp add: sorted_iff_nth_mono)
  then have "sort_key_fn (?S ! i) \<le> sort_key_fn (?S ! j)"
    using assms len by simp
  then show ?thesis
    using sorted_nth_info [OF i] sorted_nth_info [OF assms(2)] by simp
qed


text \<open>
  Claim C3. The sort returns a permutation of its list whose keys ascend, and items
  with equal keys keep their relative order (for every key, the items of that key
  appear in the output in the order of the input). The key of an item is the pair of
  its area rank and its product title; the area rank is the position in
  \<^verbatim>\<open>AREA_SORT_ORDER\<close> of the first comma-separated token of the area label, stripped,
  and the length of \<^verbatim>\<open>AREA_SORT_ORDER\<close>, eleven, when the token is not listed.
  In a run, the list that is sorted holds, for each kept index in ascending order, the
  annotated page, the label composed from the areas of the page, the index, and the
  lower-cased, stripped title of the first item of the page. So the sorted indices
  ascend by the key made of the rank of the first token of the page's label and the
  title of its first item, and of two kept pages with the same key the one with the
  smaller original index comes first.
\<close>

theorem sort_is_stable_by_key:
  fixes r :: "('p, 'l) run" and xs :: "('q \<times> string \<times> nat \<times> string) list"
  defines "label \<equiv> \<lambda>wm (pages :: ('p \<times> string) list) idx.
             determine_area_identifier
               (product_areas_of (extract_product_details (snd (pages ! idx)) wm) wm)"
    and "first_title \<equiv> \<lambda>wm (pages :: ('p \<times> string) list) idx.
             (case extract_product_details (snd (pages ! idx)) wm of
                [] \<Rightarrow> []
              | (t, s, q) # others \<Rightarrow> strip (lower t))"
  defines "key \<equiv> \<lambda>wm (pages :: ('p \<times> string) list) idx.
             sort_key_fn (fst (pages ! idx), label wm pages idx, idx, first_title wm pages idx)"
  shows
  "sorted (map sort_key_fn (py_sorted sort_key_fn xs)) \<and>
   mset (py_sorted sort_key_fn xs) = mset xs \<and>
   (\<forall>k. filter (\<lambda>x. sort_key_fn x = k) (py_sorted sort_key_fn xs) =
        filter (\<lambda>x. sort_key_fn x = k) xs) \<and>
   snd (sort_key_fn (pg, ident, idx, title)) = title \<and>
   (CHR '','' \<notin> set tok \<longrightarrow>
      get_primary_area tok = strip tok \<and> get_primary_area (tok @ CHR '','' # others) = strip tok) \<and>
   (get_primary_area ident \<in> set AREA_SORT_ORDER \<longrightarrow>
      fst (sort_key_fn (pg, ident, idx, title)) < length AREA_SORT_ORDER \<and>
      AREA_SORT_ORDER ! fst (sort_key_fn (pg, ident, idx, title)) = get_primary_area ident) \<and>
   (get_primary_area ident \<notin> set AREA_SORT_ORDER \<longrightarrow>
      fst (sort_key_fn (pg, ident, idx, title)) = length AREA_SORT_ORDER) \<and>
   length AREA_SORT_ORDER = 11 \<and> distinct AREA_SORT_ORDER \<and>
   pages_with_info_of r wm pages =
     map (\<lambda>n. (add_area_identifier_to_page r (fst (pages ! n)) (label wm pages n),
               label wm pages n, n, first_title wm pages n))
       (indices_to_keep_of (map snd pages) wm) \<and>
   sorted_indices_of r wm pages =
     map (\<lambda>item. fst (snd (snd item)))
       (py_sorted sort_key_fn (pages_with_info_of r wm pages)) \<and>
   sorted_pages_of r wm pages =
     map fst (py_sorted sort_key_fn (pages_with_info_of r wm pages)) \<and>
   snd (key wm pages m) = first_title wm pages m \<and>
   (get_primary_area (label wm pages m) \<in> set AREA_SORT_ORDER \<longrightarrow>
      fst (key wm pages m) < length AREA_SORT_ORDER \<and>
      AREA_SORT_ORDER ! fst (key wm pages m) = get_primary_area (label wm pages m)) \<and>
   (get_primary_area (label wm pages m) \<notin> set AREA_SORT_ORDER \<longrightarrow>
      fst (key wm pages m) = length AREA_SORT_ORDER) \<and>
   (\<forall>i j. i < j \<and> j < length (sorted_indices_of r wm pages) \<longrightarrow>
      key wm pages (sorted_indices_of r wm pages ! i) \<le>
        key wm pages (sorted_indices_of r wm pages ! j) \<and>
      (key wm pages (sorted_indices_of r wm pages ! i) =
         key wm pages (sorted_indices_of r wm pages ! j) \<longrightarrow>
       sorted_indices_of r wm pages ! i < sorted_indices_of r wm pages ! j))"
proof -
  have srt: "sorted (map sort_key_fn (py_sorted sort_key_fn xs))"
    by (simp add: py_sorted_def)
  have perm: "mset (py_sorted sort_key_fn xs) = mset xs"
    by (simp add: py_sorted_def)
  have stable: "\<forall>k. filter (\<lambda>x. sort_key_fn x = k) (py_sorted sort_key_fn xs) =
        filter (\<lambda>x. sort_key_fn x = k) xs"
    by (simp add: py_sorted_def sort_key_stable)
  have title: "snd (sort_key_fn (pg, ident, idx, title)) = title"
    by (simp add: sort_key_fn_def Let_def)
  have token: "CHR '','' \<notin> set tok \<longrightarrow>
      get_primary_area tok = strip tok \<and> get_primary_area (tok @ CHR '','' # others) = strip tok"
    by (simp add: get_primary_area_def takeWhile_until takeWhile_all_other)
  have listed: "get_primary_area ident \<in> set AREA_SORT_ORDER \<longrightarrow>
      fst (sort_key_fn (pg, ident, idx, title)) < length AREA_SORT_ORDER \<and>
      AREA_SORT_ORDER ! fst (sort_key_fn (pg, ident, idx, title)) = get_primary_area ident"
    by (simp add: sort_key_fn_def Let_def index_of_less index_of_nth)
  have unlisted: "get_primary_area ident \<notin> set AREA_SORT_ORDER \<longrightarrow>
      fst (sort_key_fn (pg, ident, idx, title)) = length AREA_SORT_ORDER"
    by (simp add: sort_key_fn_def Let_def)
  have len: "length AREA_SORT_ORDER = 11 \<and> distinct AREA_SORT_ORDER"
    by (simp add: AREA_SORT_ORDER_def)
  have info: "page_info r wm pages n =
      (add_area_identifier_to_page r (fst (pages ! n)) (label wm pages n),
       label wm pages n, n, first_title wm pages n)" for n
    by (simp add: page_info_def Let_def label_def first_title_def primary_product_of_def)
  have plan: "pages_with_info_of r wm pages =
     map (\<lambda>n. (add_area_identifier_to_page r (fst (pages ! n)) (label wm pages n),
               label wm pages n, n, first_title wm pages n))
       (indices_to_keep_of (map snd pages) wm)"
    by (simp add: pages_with_info_map info)
  have si: "sorted_indices_of r wm pages =
     map (\<lambda>item. fst (snd (snd item)))
       (py_sorted sort_key_fn (pages_with_info_of r wm pages))"
    by (simp add: sorted_indices_of_def)
  have sp: "sorted_pages_of r wm pages =
     map fst (py_sorted sort_key_fn (pages_with_info_of r wm pages))"
    by (simp add: sorted_pages_of_def)
  have key_info: "sort_key_fn (page_info r wm pages n) = key wm pages n" for n
    by (simp add: info key_def sort_key_fn_def Let_def)
  have ktitle: "snd (key wm pages m) = first_title wm pages m"
    by (simp add: key_def sort_key_fn_def Let_def)
  have klisted: "get_primary_area (label wm pages m) \<in> set AREA_SORT_ORDER \<longrightarrow>
      fst (key wm pages m) < length AREA_SORT_ORDER \<and>
      AREA_SORT_ORDER ! fst (key wm pages m) = get_primary_area (label wm pages m)"
    by (simp add: key_def sort_key_fn_def Let_def index_of_less index_of_nth)
  have kunlisted: "get_primary_area (label wm pages m) \<notin> set AREA_SORT_ORDER \<longrightarrow>
      fst (key wm pages m) = length AREA_SORT_ORDER"
    by (simp add: key_def sort_key_fn_def Let_def)
  have order: "\<forall>i j. i < j \<and> j < length (sorted_indices_of r wm pages) \<longrightarrow>
      key wm pages (sorted_indices_of r wm pages ! i) \<le>
        key wm pages (sorted_indices_of r wm pages ! j) \<and>
      (key wm pages (sorted_indices_of r wm pages ! i) =
         key wm pages (sorted_indices_of r wm pages ! j) \<longrightarrow>
       sorted_indices_of r wm pages ! i < sorted_indices_of r wm pages ! j)"
  proof (intro allI impI conjI)
    fix i j
    assume h: "i < j \<and> j < length (sorted_indices_of r wm pages)"
    then show "key wm pages (sorted_indices_of r wm pages ! i) \<le>
        key wm pages (sorted_indices_of r wm pages ! j)"
      using sorted_indices_ascend [of i j r wm pages] by (simp only: key_info)
    assume "key wm pages (sorted_indices_of r wm pages ! i) =
         key wm pages (sorted_indices_of r wm pages ! j)"
    then show "sorted_indices_of r wm pages ! i < sorted_indices_of r wm pages ! j"
      using h sorted_indices_stable [of i j r wm pages] by (simp only: key_info)
  qed
  show ?thesis
    using srt perm stable title token listed unlisted len plan si sp ktitle klisted kunlisted
      order
    by blast
qed


theorem sort_is_stable_by_key_witness:
  "sorted_indices_of title_run title_map title_slips = [2, 0, 3, 1] \<and>
   sorted_pages_of title_run title_map title_slips =
     [''slip 2 + A13'', ''slip 0 + A13'', ''slip 3 + A13'', ''slip 1 + B11''] \<and>
   sorted_indices_of title_run title_map title_slips ! 1 <
     sorted_indices_of title_run title_map title_slips ! 2 \<and>
   sort_key_fn (''slip 2'', ''A13'', 2::nat, ''alpaca scarf'') \<le>
     sort_key_fn (''slip 0'', ''A13'', 0::nat, ''wool hat'') \<and>
   map (\<lambda>(pg, ident, idx, title). idx)
     (py_sorted sort_key_fn
        [(''p0'', ''B11'', 0, ''tee''), (''p1'', ''A13'', 1, ''hat''),
         (''p2'', ''B11, D16'', 2, ''tee''), (''p3'', ''Unknown Area'', 3, ''cap''),
         (''p4'', ''B11'', 4, ''cap'')]) = [1, 4, 0, 2, 3] \<and>
   AREA_SORT_ORDER ! fst (sort_key_fn (''p2'', ''B11, D16'', 2::nat, ''tee'')) = ''B11'' \<and>
   fst (sort_key_fn (''p3'', ''Unknown Area'', 3::nat, ''cap'')) = 11"
proof -
  let ?xs = "[(''p0'', ''B11'', 0::nat, ''tee''), (''p1'', ''A13'', 1, ''hat''),
         (''p2'', ''B11, D16'', 2, ''tee''), (''p3'', ''Unknown Area'', 3, ''cap''),
         (''p4'', ''B11'', 4, ''cap'')]"
  let ?si = "sorted_indices_of title_run title_map title_slips"
  let ?label = "\<lambda>n. determine_area_identifier
               (product_areas_of (extract_product_details (snd (title_slips ! n)) title_map)
                  title_map)"
  let ?title = "\<lambda>n. (case extract_product_details (snd (title_slips ! n)) title_map of
                [] \<Rightarrow> []
              | (t, s, q) # others \<Rightarrow> strip (lower t))"
  let ?key = "\<lambda>n. sort_key_fn (fst (title_slips ! n), ?label n, n, ?title n)"
  note at_p2 = sort_is_stable_by_key
    [where xs = ?xs and pg = "''p2''" and ident = "''B11, D16''" and idx = 2 and title = "''tee''"
       and tok = "''B11''" and others = "'' D16''" and r = title_run and wm = title_map
       and pages = title_slips and m = 2]
  note at_p3 = sort_is_stable_by_key
    [where xs = ?xs and pg = "''p3''" and ident = "''Unknown Area''" and idx = 3
       and title = "''cap''" and tok = "''B11''" and others = "'' D16''" and r = title_run
       and wm = title_map and pages = title_slips and m = 0]
  have sidx: "?si = [2, 0, 3, 1]"
    by code_simp
  have spages: "sorted_pages_of title_run title_map title_slips =
     [''slip 2 + A13'', ''slip 0 + A13'', ''slip 3 + A13'', ''slip 1 + B11'']"
    by code_simp
  have k0: "?key 0 = (0, ''wool hat'')" by code_simp
  have k2: "?key 2 = (0, ''alpaca scarf'')" by code_simp
  have k3: "?key 3 = (0, ''wool hat'')" by code_simp
  have d0: "sort_key_fn (''slip 0'', ''A13'', 0::nat, ''wool hat'') = (0, ''wool hat'')"
    by code_simp
  have d2: "sort_key_fn (''slip 2'', ''A13'', 2::nat, ''alpaca scarf'') = (0, ''alpaca scarf'')"
    by code_simp
  have ord: "\<forall>i j. i < j \<and> j < length ?si \<longrightarrow>
      ?key (?si ! i) \<le> ?key (?si ! j) \<and>
      (?key (?si ! i) = ?key (?si ! j) \<longrightarrow> ?si ! i < ?si ! j)"
    using at_p2 by blast
  have i01: "(0::nat) < 1 \<and> 1 < length ?si" and i12: "(1::nat) < 2 \<and> 2 < length ?si"
    by (simp_all add: sidx)
  have n0: "?si ! 0 = 2" and n1: "?si ! 1 = 0" and n2: "?si ! 2 = 3"
    by (simp_all add: sidx)
  have "?key (?si ! 0) \<le> ?key (?si ! 1)"
    using ord i01 by blast
  then have a: "sort_key_fn (''slip 2'', ''A13'', 2::nat, ''alpaca scarf'') \<le>
     sort_key_fn (''slip 0'', ''A13'', 0::nat, ''wool hat'')"
    unfolding n0 n1 k0 k2 d0 d2 .
  have "?key (?si ! 1) = ?key (?si ! 2)"
    unfolding n1 n2 k0 k3 by (rule refl)
  then have b: "?si ! 1 < ?si ! 2"
    using ord i12 by blast
  have p2: "get_primary_area ''B11, D16'' = ''B11''"
    by code_simp
  have p3: "get_primary_area ''Unknown Area'' = ''Unknown Area''"
    by code_simp
  have in2: "get_primary_area ''B11, D16'' \<in> set AREA_SORT_ORDER"
    unfolding p2 by (simp add: AREA_SORT_ORDER_def)
  have out3: "get_primary_area ''Unknown Area'' \<notin> set AREA_SORT_ORDER"
    unfolding p3 by (simp add: AREA_SORT_ORDER_def)
  have "AREA_SORT_ORDER ! fst (sort_key_fn (''p2'', ''B11, D16'', 2::nat, ''tee'')) =
      get_primary_area ''B11, D16''"
    using in2 at_p2 by blast
  then have c: "AREA_SORT_ORDER ! fst (sort_key_fn (''p2'', ''B11, D16'', 2::nat, ''tee'')) = ''B11''"
    unfolding p2 .
  have "fst (sort_key_fn (''p3'', ''Unknown Area'', 3::nat, ''cap'')) = length AREA_SORT_ORDER"
    using out3 at_p3 by blast
  then have d: "fst (sort_key_fn (''p3'', ''Unknown Area'', 3::nat, ''cap'')) = 11"
    by (simp add: AREA_SORT_ORDER_def)
  have e: "map (\<lambda>(pg, ident, idx, title). idx) (py_sorted sort_key_fn ?xs) = [1, 4, 0, 2, 3]"
    by code_simp
  show ?thesis
    using sidx spages a b c d e by blast
qed

text \<open>
  Claim C1. When a run writes the sorted shipping labels, both decks were read and the
  sorted indices, a rearrangement of the kept indices in the order of the sort, place
  both decks: the label output has as many pages as there are sorted slip pages, and at
  every position the label page is the page of the label deck at the sorted index of
  that position, and the slip page is the annotated page of the slip deck at the same
  index. The file of the sorted packing slips, when it was written, holds the summary
  pages and then these slip pages.
\<close>

theorem labels_follow_slips:
  assumes "sorted_shipping_labels_pdf (process_packing_slips_and_labels r wm) = Some label_out"
  shows "\<exists>pages labels.
           packing_slips r = Inr pages \<and> shipping_labels r = Inr labels \<and>
           length label_out = length (sorted_pages_of r wm pages) \<and>
           length label_out = length (sorted_indices_of r wm pages) \<and>
           mset (sorted_indices_of r wm pages) = mset (indices_to_keep_of (map snd pages) wm) \<and>
           (\<forall>i < length label_out.
              sorted_indices_of r wm pages ! i < length pages \<and>
              sorted_indices_of r wm pages ! i < length labels \<and>
              label_out ! i = labels ! (sorted_indices_of r wm pages ! i) \<and>
              sorted_pages_of r wm pages ! i =
                add_area_identifier_to_page r (fst (pages ! (sorted_indices_of r wm pages ! i)))
                  (determine_area_identifier
                     (product_areas_of
                        (extract_product_details
                           (snd (pages ! (sorted_indices_of r wm pages ! i))) wm) wm))) \<and>
           (\<forall>slips_out.
              sorted_packing_slips_pdf (process_packing_slips_and_labels r wm) = Some slips_out \<longrightarrow>
              slips_out =
                create_summary_pdf_page (build_summary_pages r)
                  (summary_data_of (map snd pages) wm (indices_to_keep_of (map snd pages) wm)) @
                sorted_pages_of r wm pages)"
proof -
  obtain pages labels where
    ps: "packing_slips r = Inr pages" and ls: "shipping_labels r = Inr labels" and
    len: "length labels = length pages" and
    out: "label_out = map (\<lambda>page_index. labels ! page_index)
                         (filter (\<lambda>page_index. page_index < length labels)
                            (sorted_indices_of r wm pages))" and
    slips: "sorted_packing_slips_pdf (process_packing_slips_and_labels r wm) =
             (case save_slips_error r of
                None \<Rightarrow> Some (create_summary_pdf_page (build_summary_pages r)
                                 (summary_data_of (map snd pages) wm
                                    (indices_to_keep_of (map snd pages) wm)) @
                               sorted_pages_of r wm pages)
              | Some e \<Rightarrow> None)"
    using labels_written [OF assms] by blast
  let ?si = "sorted_indices_of r wm pages"
  have all: "filter (\<lambda>page_index. page_index < length labels) ?si = ?si"
    using sorted_indices_bound [of _ r wm pages] len by (simp add: filter_id_conv)
  have out': "label_out = map (\<lambda>page_index. labels ! page_index) ?si"
    using out all by simp
  have l1: "length label_out = length ?si" using out' by simp
  have l2: "length label_out = length (sorted_pages_of r wm pages)"
    using l1 by (simp add: sorted_lengths)
  have each: "\<forall>i < length label_out.
              ?si ! i < length pages \<and> ?si ! i < length labels \<and>
              label_out ! i = labels ! (?si ! i) \<and>
              sorted_pages_of r wm pages ! i =
                add_area_identifier_to_page r (fst (pages ! (?si ! i)))
                  (determine_area_identifier
                     (product_areas_of
                        (extract_product_details (snd (pages ! (?si ! i))) wm) wm))"
  proof (intro allI impI)
    fix i assume i: "i < length label_out"
    then have i': "i < length ?si" using l1 by simp
    then have b: "?si ! i < length pages"
      using sorted_indices_bound [of "?si ! i" r wm pages] by simp
    have lab: "label_out ! i = labels ! (?si ! i)"
      using out' i' by simp
    have "i < length (py_sorted sort_key_fn (pages_with_info_of r wm pages))"
      using i' by (simp add: sorted_indices_of_def)
    then have "sorted_pages_of r wm pages ! i =
          fst (py_sorted sort_key_fn (pages_with_info_of r wm pages) ! i)"
      by (simp add: sorted_pages_of_def)
    also have "\<dots> = fst (page_info r wm pages (?si ! i))"
      using sorted_nth_info [OF i'] by simp
    finally have pg: "sorted_pages_of r wm pages ! i =
          add_area_identifier_to_page r (fst (pages ! (?si ! i)))
            (determine_area_identifier
               (product_areas_of (extract_product_details (snd (pages ! (?si ! i))) wm) wm))"
      by (simp add: page_info_def Let_def)
    show "?si ! i < length pages \<and> ?si ! i < length labels \<and>
          label_out ! i = labels ! (?si ! i) \<and>
          sorted_pages_of r wm pages ! i =
            add_area_identifier_to_page r (fst (pages ! (?si ! i)))
              (determine_area_identifier
                 (product_areas_of (extract_product_details (snd (pages ! (?si ! i))) wm) wm))"
      using b len lab pg by simp
  qed
  have written: "\<forall>slips_out.
              sorted_packing_slips_pdf (process_packing_slips_and_labels r wm) = Some slips_out \<longrightarrow>
              slips_out =
                create_summary_pdf_page (build_summary_pages r)
                  (summary_data_of (map snd pages) wm (indices_to_keep_of (map snd pages) wm)) @
                sorted_pages_of r wm pages"
    using slips by (auto split: option.splits)
  show ?thesis
    using ps ls l1 l2 sorted_indices_mset [of r wm pages] each written by blast
qed

theorem labels_follow_slips_witness:
  "sorted_shipping_labels_pdf (process_packing_slips_and_labels demo_run demo_map) =
     Some [''label 1'', ''label 0''] \<and>
   sorted_indices_of demo_run demo_map demo_slips = [1, 0] \<and>
   sorted_pages_of demo_run demo_map demo_slips = [''slip 1 + A13'', ''slip 0 + B11''] \<and>
   length (sorted_pages_of demo_run demo_map demo_slips) = length [''label 1'', ''label 0'']"
proof -
  have h: "sorted_shipping_labels_pdf (process_packing_slips_and_labels demo_run demo_map) =
     Some [''label 1'', ''label 0'']"
    by code_simp
  have ps: "packing_slips demo_run = Inr demo_slips"
    by (simp add: demo_run_def)
  have "length [''label 1'', ''label 0''] = length (sorted_pages_of demo_run demo_map demo_slips)"
    using labels_follow_slips [OF h] ps by auto
  moreover have "sorted_indices_of demo_run demo_map demo_slips = [1, 0]"
    by code_simp
  moreover have "sorted_pages_of demo_run demo_map demo_slips = [''slip 1 + A13'', ''slip 0 + B11'']"
    by code_simp
  ultimately show ?thesis using h by simp
qed

subsection \<open>Selection, manifest buckets and the two output files\<close>

lemma foldl_pages_concat:
  "foldl (\<lambda>acc idx. foldl f acc (g idx)) a ks = foldl f a (concat (map g ks))"
  by (induction ks arbitrary: a) auto

lemma add_to_summary_bucket:
  "add_to_summary wm sd entry area =
     (if item_area wm entry = area
      then Some ((case sd area of None \<Rightarrow> [] | Some xs \<Rightarrow> xs) @ [entry])
      else sd area)"
  by (cases entry) (auto simp: add_to_summary_def item_area_def Let_def)

lemma foldl_add_to_summary:
  "foldl (add_to_summary wm) sd entries area =
     (if filter (\<lambda>e. item_area wm e = area) entries = [] then sd area
      else Some ((case sd area of None \<Rightarrow> [] | Some xs \<Rightarrow> xs) @
                 filter (\<lambda>e. item_area wm e = area) entries))"
proof (induction entries arbitrary: sd)
  case Nil
  then show ?case by simp
next
  case (Cons e es)
  have "foldl (add_to_summary wm) sd (e # es) area =
        foldl (add_to_summary wm) (add_to_summary wm sd e) es area"
    by simp
  also have "\<dots> =
     (if filter (\<lambda>e. item_area wm e = area) es = [] then add_to_summary wm sd e area
      else Some ((case add_to_summary wm sd e area of None \<Rightarrow> [] | Some xs \<Rightarrow> xs) @
                 filter (\<lambda>e. item_area wm e = area) es))"
    by (rule Cons.IH)
  also have "\<dots> =
     (if filter (\<lambda>e. item_area wm e = area) (e # es) = [] then sd area
      else Some ((case sd area of None \<Rightarrow> [] | Some xs \<Rightarrow> xs) @
                 filter (\<lambda>e. item_area wm e = area) (e # es)))"
    by (simp add: add_to_summary_bucket split: option.splits)
  finally show ?case .
qed

lemma summary_data_buckets:
  "summary_data_of texts wm ks area =
     (if filter (\<lambda>e. item_area wm e = area)
           (concat (map (\<lambda>idx. extract_product_details (texts ! idx) wm) ks)) = []
      then None
      else Some (filter (\<lambda>e. item_area wm e = area)
                   (concat (map (\<lambda>idx. extract_product_details (texts ! idx) wm) ks))))"
  by (simp add: summary_data_of_def foldl_pages_concat foldl_add_to_summary)

lemma summary_entry_origin:
  assumes "summary_data_of texts wm ks area = Some products" and "entry \<in> set products"
  shows "item_area wm entry = area \<and>
         (\<exists>j \<in> set ks. entry \<in> set (extract_product_details (texts ! j) wm))"
  using assms by (auto simp: summary_data_buckets split: if_splits)

lemma keep_page_iff: "keep_page details wm \<longleftrightarrow> details \<noteq> []"
  by (cases details) (auto simp: keep_page_def product_areas_of_def)

lemma product_areas_empty_iff: "product_areas_of details wm = {||} \<longleftrightarrow> details = []"
  by (cases details) (auto simp: product_areas_of_def)

lemma has_samples_Nil [simp]: "\<not> has_samples []"
  by (simp add: has_samples_def)

lemma kept_iff:
  "idx \<in> set (indices_to_keep_of texts wm) \<longleftrightarrow>
     idx < length texts \<and> extract_product_details (texts ! idx) wm \<noteq> []"
  by (auto simp: indices_to_keep_of_def keep_page_iff)

text \<open>
  Claim C6. A page of the packing-slip deck is kept exactly when the set of areas of
  its parsed items is not empty or one of its items is a sample. A page without parsed
  items is not among the kept indices, so it is not among the sorted indices either, and
  every entry of every bucket of the manifest data is an item of a kept page.
\<close>

theorem page_kept_iff_areas_or_sample:
  fixes pages :: "('p \<times> string) list" and r :: "('p, 'l) run"
  defines "details \<equiv> \<lambda>wm pages idx. extract_product_details (snd (pages ! idx)) wm"
  assumes "idx < length pages"
  shows "(idx \<in> set (indices_to_keep_of (map snd pages) wm) \<longleftrightarrow>
            product_areas_of (details wm pages idx) wm \<noteq> {||} \<or> has_samples (details wm pages idx)) \<and>
         (details wm pages idx = [] \<longrightarrow>
            idx \<notin> set (indices_to_keep_of (map snd pages) wm) \<and>
            idx \<notin> set (sorted_indices_of r wm pages)) \<and>
         (\<forall>area products entry.
            summary_data_of (map snd pages) wm (indices_to_keep_of (map snd pages) wm) area =
              Some products \<and> entry \<in> set products \<longrightarrow>
            (\<exists>j \<in> set (indices_to_keep_of (map snd pages) wm).
               entry \<in> set (details wm pages j)))"
proof -
  have d: "extract_product_details (map snd pages ! idx) wm = details wm pages idx"
    using assms by (simp add: details_def)
  have k: "idx \<in> set (indices_to_keep_of (map snd pages) wm) \<longleftrightarrow> details wm pages idx \<noteq> []"
    using assms d by (simp add: kept_iff)
  have a: "idx \<in> set (indices_to_keep_of (map snd pages) wm) \<longleftrightarrow>
            product_areas_of (details wm pages idx) wm \<noteq> {||} \<or> has_samples (details wm pages idx)"
    using k by (cases "details wm pages idx = []") (auto simp: product_areas_empty_iff)
  have b: "details wm pages idx = [] \<longrightarrow>
            idx \<notin> set (indices_to_keep_of (map snd pages) wm) \<and>
            idx \<notin> set (sorted_indices_of r wm pages)"
    using k sorted_indices_mset [of r wm pages] by (metis set_mset_mset)
  have c: "\<forall>area products entry.
            summary_data_of (map snd pages) wm (indices_to_keep_of (map snd pages) wm) area =
              Some products \<and> entry \<in> set products \<longrightarrow>
            (\<exists>j \<in> set (indices_to_keep_of (map snd pages) wm).
               entry \<in> set (details wm pages j))"
  proof (intro allI impI)
    fix area products entry
    assume h: "summary_data_of (map snd pages) wm (indices_to_keep_of (map snd pages) wm) area =
              Some products \<and> entry \<in> set products"
    then obtain j where j: "j \<in> set (indices_to_keep_of (map snd pages) wm)"
      and e: "entry \<in> set (extract_product_details (map snd pages ! j) wm)"
      using summary_entry_origin by blast
    have "j < length pages" using j indices_to_keep_bound by fastforce
    then have "entry \<in> set (details wm pages j)" using e by (simp add: details_def)
    then show "\<exists>j \<in> set (indices_to_keep_of (map snd pages) wm). entry \<in> set (details wm pages j)"
      using j by blast
  qed
  show ?thesis using a b c by blast
qed



theorem page_kept_iff_areas_or_sample_witness:
  "2 \<notin> set (indices_to_keep_of (map snd demo_slips) demo_map) \<and>
   2 \<notin> set (sorted_indices_of demo_run demo_map demo_slips) \<and>
   0 \<in> set (indices_to_keep_of (map snd demo_slips) demo_map)"
proof -
  have l2: "2 < length demo_slips" and l0: "0 < length demo_slips"
    by (simp_all add: demo_slips_def)
  have e2: "extract_product_details (snd (demo_slips ! 2)) demo_map = []"
    by code_simp
  have a0: "product_areas_of (extract_product_details (snd (demo_slips ! 0)) demo_map) demo_map
              \<noteq> {||}"
    by code_simp
  have "2 \<notin> set (indices_to_keep_of (map snd demo_slips) demo_map) \<and>
        2 \<notin> set (sorted_indices_of demo_run demo_map demo_slips)"
    using e2 page_kept_iff_areas_or_sample [OF l2, of demo_map demo_run] by blast
  moreover have "0 \<in> set (indices_to_keep_of (map snd demo_slips) demo_map)"
    using a0 page_kept_iff_areas_or_sample [OF l0, of demo_map demo_run] by blast
  ultimately show ?thesis by blast
qed

text \<open>
  Claim C2, as the code has it. When the label deck and the packing-slip deck differ in
  their page counts, the run ends with an error popup as the last thing the operator
  sees, never reports completion and does not write the sorted shipping labels. The
  sorted packing slips are written in step 6, before the label deck is read: their file
  exists after the abort exactly when the run got as far as step 6 and that write
  succeeded; from step 6 on, the popup is the one of the mismatch.
\<close>

theorem label_count_mismatch_aborts:
  assumes "packing_slips r = Inr pages" and "shipping_labels r = Inr labels"
    and "length labels \<noteq> length pages"
  shows "sorted_shipping_labels_pdf (process_packing_slips_and_labels r wm) = None \<and>
         (\<exists>p. last (events (process_packing_slips_and_labels r wm)) = PopupError p) \<and>
         Status ProcessingCompleted \<notin> set (events (process_packing_slips_and_labels r wm)) \<and>
         (sorted_packing_slips_pdf (process_packing_slips_and_labels r wm) \<noteq> None \<longleftrightarrow>
            reaches_saving r wm pages \<and> save_slips_error r = None) \<and>
         (reaches_saving r wm pages \<longrightarrow>
            last (events (process_packing_slips_and_labels r wm)) = PopupError LabelCountMismatch)"
  using assms
  by (auto simp: process_packing_slips_and_labels_def save_and_correlate_def reaches_saving_def
        Let_def split: option.splits if_splits)

text \<open>With three packing slips, two of them kept, and one label, the sorted packing slips
  are written although the run aborts with the popup of the mismatch.\<close>

theorem label_count_mismatch_counterexample:
  "packing_slips mismatch_run = Inr demo_slips \<and>
   shipping_labels mismatch_run = Inr [''label 0''] \<and>
   length [''label 0''] \<noteq> length demo_slips \<and>
   sorted_packing_slips_pdf (process_packing_slips_and_labels mismatch_run demo_map) =
     Some [''Locker: A13'', ''Locker: B11'', ''slip 1 + A13'', ''slip 0 + B11''] \<and>
   last (events (process_packing_slips_and_labels mismatch_run demo_map)) =
     PopupError LabelCountMismatch"
proof -
  have "sorted_packing_slips_pdf (process_packing_slips_and_labels mismatch_run demo_map) =
     Some [''Locker: A13'', ''Locker: B11'', ''slip 1 + A13'', ''slip 0 + B11'']"
    by code_simp
  moreover have "last (events (process_packing_slips_and_labels mismatch_run demo_map)) =
     PopupError LabelCountMismatch"
    by code_simp
  ultimately show ?thesis
    by (simp add: mismatch_run_def demo_run_def demo_slips_def)
qed

theorem label_count_mismatch_aborts_witness:
  "sorted_shipping_labels_pdf (process_packing_slips_and_labels mismatch_run demo_map) = None \<and>
   sorted_packing_slips_pdf (process_packing_slips_and_labels mismatch_run demo_map) \<noteq> None \<and>
   last (events (process_packing_slips_and_labels mismatch_run demo_map)) =
     PopupError LabelCountMismatch"
proof -
  have p: "packing_slips mismatch_run = Inr demo_slips"
    and l: "shipping_labels mismatch_run = Inr [''label 0'']"
    and n: "length [''label 0''] \<noteq> length demo_slips"
    and s: "save_slips_error mismatch_run = None"
    by (simp_all add: mismatch_run_def demo_run_def demo_slips_def)
  have k: "indices_to_keep_of (map snd demo_slips) demo_map \<noteq> []"
    by code_simp
  have g: "reaches_saving mismatch_run demo_map demo_slips"
    using k by (simp add: reaches_saving_def mismatch_run_def demo_run_def demo_slips_def)
  show ?thesis
    using g s label_count_mismatch_aborts [OF p l n, of demo_map] by blast
qed

text \<open>
  Claim C8 at a run whose write of the sorted packing slips fails: \<^verbatim>\<open>save_pdf\<close> shows
  its popup and returns, the shipping labels are processed, their file is written, both
  paths are opened and the run reports completion.
\<close>

theorem failed_slips_write_goes_on:
  "save_slips_error failed_save_run = Some ''disk full'' \<and>
   sorted_packing_slips_pdf (process_packing_slips_and_labels failed_save_run demo_map) = None \<and>
   sorted_shipping_labels_pdf (process_packing_slips_and_labels failed_save_run demo_map) =
     Some [''label 1'', ''label 0''] \<and>
   events (process_packing_slips_and_labels failed_save_run demo_map) =
     [Status ReadingPackingSlips, Status ExtractingProductDetails, Status GeneratingSummary,
      Status AnnotatingPackingSlips, Status (AnnotatingPage 1 2), Status (AnnotatingPage 2 2),
      Status SortingPackingSlips, Status SavingSortedPackingSlips,
      PopupError (SavePdfFailed ''disk full''), Status ProcessingShippingLabels,
      OpenFile ''out/sorted_packing_slips.pdf'', OpenFile ''out/sorted_shipping_labels.pdf'',
      Status ProcessingCompleted]"
proof -
  have a: "save_slips_error failed_save_run = Some ''disk full''"
    by (simp add: failed_save_run_def)
  have b: "sorted_packing_slips_pdf (process_packing_slips_and_labels failed_save_run demo_map) = None"
    by code_simp
  have c: "sorted_shipping_labels_pdf (process_packing_slips_and_labels failed_save_run demo_map) =
     Some [''label 1'', ''label 0'']"
    by code_simp
  have d: "events (process_packing_slips_and_labels failed_save_run demo_map) =
     [Status ReadingPackingSlips, Status ExtractingProductDetails, Status GeneratingSummary,
      Status AnnotatingPackingSlips, Status (AnnotatingPage 1 2), Status (AnnotatingPage 2 2),
      Status SortingPackingSlips, Status SavingSortedPackingSlips,
      PopupError (SavePdfFailed ''disk full''), Status ProcessingShippingLabels,
      OpenFile ''out/sorted_packing_slips.pdf'', OpenFile ''out/sorted_shipping_labels.pdf'',
      Status ProcessingCompleted]"
    by code_simp
  show ?thesis using a b c d by blast
qed

text \<open>In general: once step 6 is reached, a failed write of the sorted packing slips is
  followed by its popup and then by the processing of the shipping labels.\<close>

lemma save_and_correlate_events:
  "\<exists>post. events (save_and_correlate r so_far n summary_pages pgs idxs) =
     so_far @ Status SavingSortedPackingSlips #
       (case save_slips_error r of None \<Rightarrow> [] | Some e \<Rightarrow> [PopupError (SavePdfFailed e)]) @
       Status ProcessingShippingLabels # post"
  by (simp add: save_and_correlate_def Let_def split: option.splits sum.splits)

lemma process_reaches_saving:
  assumes "reaches_saving r wm pages"
  shows "\<exists>so_far. process_packing_slips_and_labels r wm =
           save_and_correlate r so_far (length pages)
             (create_summary_pdf_page (build_summary_pages r)
                (summary_data_of (map snd pages) wm (indices_to_keep_of (map snd pages) wm)))
             (sorted_pages_of r wm pages) (sorted_indices_of r wm pages)"
  using assms
  by (auto simp: process_packing_slips_and_labels_def reaches_saving_def Let_def
        split: option.splits)

lemma failed_slips_write_never_stops:
  assumes "reaches_saving r wm pages" and "save_slips_error r = Some e"
  shows "sorted_packing_slips_pdf (process_packing_slips_and_labels r wm) = None \<and>
         (\<exists>pre post. events (process_packing_slips_and_labels r wm) =
            pre @ [Status SavingSortedPackingSlips, PopupError (SavePdfFailed e),
                   Status ProcessingShippingLabels] @ post)"
proof -
  obtain so_far where p: "process_packing_slips_and_labels r wm =
           save_and_correlate r so_far (length pages)
             (create_summary_pdf_page (build_summary_pages r)
                (summary_data_of (map snd pages) wm (indices_to_keep_of (map snd pages) wm)))
             (sorted_pages_of r wm pages) (sorted_indices_of r wm pages)"
    using process_reaches_saving [OF assms(1)] by blast
  obtain post where "events (process_packing_slips_and_labels r wm) =
     so_far @ Status SavingSortedPackingSlips #
       (case save_slips_error r of None \<Rightarrow> [] | Some e \<Rightarrow> [PopupError (SavePdfFailed e)]) @
       Status ProcessingShippingLabels # post"
    unfolding p using save_and_correlate_events by blast
  then have "events (process_packing_slips_and_labels r wm) =
     so_far @ [Status SavingSortedPackingSlips, PopupError (SavePdfFailed e),
                   Status ProcessingShippingLabels] @ post"
    using assms(2) by simp
  moreover have "sorted_packing_slips_pdf (process_packing_slips_and_labels r wm) = None"
    unfolding p using assms(2)
    by (simp add: save_and_correlate_def Let_def split: option.splits sum.splits)
  ultimately show ?thesis by blast
qed

subsection \<open>Pages of unlisted areas\<close>

lemma merge_quantities_keys:
  "fst ` set (fst (merge_quantities xs up w)) \<subseteq>
     fst ` set up \<union> (\<lambda>(t, s, q). (t, s)) ` set xs"
proof (induction xs up w rule: merge_quantities.induct)
  case (1 up w)
  then show ?case by simp
next
  case (2 t s q rest up w)
  show ?case
  proof (cases "py_int q")
    case None
    then show ?thesis using 2(1) by auto
  next
    case (Some n)
    note parsed = this
    show ?thesis
    proof (cases "map_of up (t, s)")
      case None
      then show ?thesis
        using parsed 2(2) [OF parsed None] by (auto simp: dom_update)
    next
      case (Some current)
      then show ?thesis
        using parsed 2(3) [OF parsed Some] by (auto simp: dom_update)
    qed
  qed
qed

lemma table_row_origin:
  assumes "row \<in> set (tl (table_data products))"
  shows "\<exists>t s q n. row = [t, s, py_str n] \<and> (t, s, q) \<in> set products"
proof -
  obtain t s n where row: "row = [t, s, py_str n]"
    and mem: "((t, s), n) \<in> set (fst (unique_products_of products))"
    using assms by (auto simp: table_data_def)
  have "(t, s) \<in> fst ` set (fst (unique_products_of products))"
    using mem by force
  then have "(t, s) \<in> (\<lambda>(t, s, q). (t, s)) ` set (sorted_products_of products)"
    using merge_quantities_keys [of "sorted_products_of products" "[]" "[]"]
    by (auto simp: unique_products_of_def)
  then obtain q where "(t, s, q) \<in> set products"
    by (auto simp: sorted_products_of_def py_sorted_def)
  then show ?thesis using row by blast
qed

lemma summary_elements_origin:
  assumes "(title, data) \<in> set (summary_elements summary_data)"
  shows "\<exists>area \<in> set AREA_SORT_ORDER. \<exists>products.
           summary_data area = Some products \<and> data = table_data products \<and>
           title = area_title_of area"
  using assms
  by (auto simp: summary_elements_def Let_def split: option.splits if_splits) metis

lemma item_area_title: "item_area wm (t, s, q) = item_area wm (t, s', q')"
  by (simp add: item_area_def)

lemma manifest_row_area:
  assumes "(title, data) \<in> set (summary_elements (summary_data_of texts wm ks))"
    and "[t, s, q] \<in> set (tl data)"
  shows "item_area wm (t, s', q') \<in> set AREA_SORT_ORDER"
proof -
  obtain area products where a: "area \<in> set AREA_SORT_ORDER"
    and b: "summary_data_of texts wm ks area = Some products"
    and d: "data = table_data products"
    using summary_elements_origin [OF assms(1)] by blast
  obtain q0 where "(t, s, q0) \<in> set products"
    using table_row_origin [of "[t, s, q]" products] assms(2) d by auto
  then have "item_area wm (t, s, q0) = area"
    using summary_entry_origin [OF b] by blast
  then show ?thesis using a item_area_title [of wm t s q0 s' q'] by simp
qed

lemma unknown_area_unlisted: "''Unknown Area'' \<notin> set AREA_SORT_ORDER"
  by (simp add: AREA_SORT_ORDER_def)

lemma product_areas_all_same:
  assumes "details \<noteq> []" and "\<forall>entry \<in> set details. item_area wm entry = a"
  shows "product_areas_of details wm = {|a|}"
proof -
  have "set (map (\<lambda>(product_title, size', quantity).
               get_warehouse_area (strip (lower product_title)) wm) details) = {a}"
    using assms by (cases details) (auto simp: item_area_def)
  then show ?thesis
    unfolding product_areas_of_def
    by (metis (no_types, lifting) fset_of_list.rep_eq fset_inject fset_simps(1,2))
qed

lemma unknown_area_rank:
  "fst (sort_key_fn (pg, ''Unknown Area'', idx, title)) = length AREA_SORT_ORDER"
proof -
  have "get_primary_area ''Unknown Area'' = ''Unknown Area''" by code_simp
  then show ?thesis by (simp add: sort_key_fn_def Let_def unknown_area_unlisted)
qed

lemma sorted_plan_rank_mono:
  assumes "i < j" and "j < length (py_sorted sort_key_fn xs)"
  shows "fst (sort_key_fn (py_sorted sort_key_fn xs ! i)) \<le>
         fst (sort_key_fn (py_sorted sort_key_fn xs ! j))"
proof -
  have "sorted (map sort_key_fn (py_sorted sort_key_fn xs))"
    by (simp add: py_sorted_def)
  then have "map sort_key_fn (py_sorted sort_key_fn xs) ! i \<le>
             map sort_key_fn (py_sorted sort_key_fn xs) ! j"
    using assms by (simp add: sorted_iff_nth_mono)
  then have "sort_key_fn (py_sorted sort_key_fn xs ! i) \<le>
             sort_key_fn (py_sorted sort_key_fn xs ! j)"
    using assms by simp
  then show ?thesis by (auto simp: less_eq_prod_def)
qed

text \<open>
  Claim C9. A kept page has a non-empty set of areas. A page with parsed items that all
  resolve to \<^verbatim>\<open>Unknown Area\<close> is kept, is labelled \<^verbatim>\<open>Unknown Area\<close> and has the rank
  of an unlisted area, the length of \<^verbatim>\<open>AREA_SORT_ORDER\<close>; in the sorted plan it stands
  after every page whose first area is listed; and no table of the manifest has a row
  with the title of one of its items, whatever the size and the quantity of the row,
  since the manifest has sections for the areas of \<^verbatim>\<open>AREA_SORT_ORDER\<close> only.
\<close>

theorem unknown_area_page_kept_last_unlisted:
  fixes pages :: "('p \<times> string) list" and r :: "('p, 'l) run"
  defines "details \<equiv> \<lambda>wm pages idx. extract_product_details (snd (pages ! idx)) wm"
    and "kept \<equiv> \<lambda>wm pages. indices_to_keep_of (map snd pages) wm"
    and "plan \<equiv> \<lambda>r wm pages. py_sorted sort_key_fn (pages_with_info_of r wm pages)"
  assumes "idx < length pages"
  shows "(idx \<in> set (kept wm pages) \<longrightarrow> product_areas_of (details wm pages idx) wm \<noteq> {||}) \<and>
         (details wm pages idx \<noteq> [] \<and>
          (\<forall>entry \<in> set (details wm pages idx). item_area wm entry = ''Unknown Area'') \<longrightarrow>
            idx \<in> set (kept wm pages) \<and>
            determine_area_identifier (product_areas_of (details wm pages idx) wm) =
              ''Unknown Area'' \<and>
            fst (sort_key_fn (page_info r wm pages idx)) = length AREA_SORT_ORDER \<and>
            (\<forall>i j. i < length (plan r wm pages) \<and> j < length (plan r wm pages) \<and>
                   sorted_indices_of r wm pages ! i = idx \<and>
                   fst (sort_key_fn (plan r wm pages ! j)) < length AREA_SORT_ORDER \<longrightarrow>
                   j < i) \<and>
            (\<forall>title data t s q s' q'.
               (title, data) \<in> set (summary_elements
                                    (summary_data_of (map snd pages) wm (kept wm pages))) \<and>
               (t, s, q) \<in> set (details wm pages idx) \<longrightarrow>
               [t, s', q'] \<notin> set (tl data)))"
proof -
  let ?d = "details wm pages idx"
  have d: "extract_product_details (map snd pages ! idx) wm = ?d"
    using assms by (simp add: details_def)
  have k: "idx \<in> set (kept wm pages) \<longleftrightarrow> ?d \<noteq> []"
    using assms d by (simp add: kept_iff kept_def)
  have first: "idx \<in> set (kept wm pages) \<longrightarrow> product_areas_of ?d wm \<noteq> {||}"
    using k by (simp add: product_areas_empty_iff)
  have second: "idx \<in> set (kept wm pages) \<and>
            determine_area_identifier (product_areas_of ?d wm) = ''Unknown Area'' \<and>
            fst (sort_key_fn (page_info r wm pages idx)) = length AREA_SORT_ORDER \<and>
            (\<forall>i j. i < length (plan r wm pages) \<and> j < length (plan r wm pages) \<and>
                   sorted_indices_of r wm pages ! i = idx \<and>
                   fst (sort_key_fn (plan r wm pages ! j)) < length AREA_SORT_ORDER \<longrightarrow>
                   j < i) \<and>
            (\<forall>title data t s q s' q'.
               (title, data) \<in> set (summary_elements
                                    (summary_data_of (map snd pages) wm (kept wm pages))) \<and>
               (t, s, q) \<in> set ?d \<longrightarrow>
               [t, s', q'] \<notin> set (tl data))"
    if ne: "?d \<noteq> []" and un: "\<forall>entry \<in> set ?d. item_area wm entry = ''Unknown Area''"
  proof -
    have kept: "idx \<in> set (kept wm pages)" using k ne by simp
    have areas: "product_areas_of ?d wm = {|''Unknown Area''|}"
      using product_areas_all_same [OF ne un] .
    have ident: "determine_area_identifier (product_areas_of ?d wm) = ''Unknown Area''"
      unfolding areas by code_simp
    have rank: "fst (sort_key_fn (page_info r wm pages idx)) = length AREA_SORT_ORDER"
      using ident unknown_area_rank
      by (simp add: page_info_def Let_def details_def)
    have order: "\<forall>i j. i < length (plan r wm pages) \<and> j < length (plan r wm pages) \<and>
                   sorted_indices_of r wm pages ! i = idx \<and>
                   fst (sort_key_fn (plan r wm pages ! j)) < length AREA_SORT_ORDER \<longrightarrow>
                   j < i"
    proof (intro allI impI)
      fix i j
      assume h: "i < length (plan r wm pages) \<and> j < length (plan r wm pages) \<and>
                   sorted_indices_of r wm pages ! i = idx \<and>
                   fst (sort_key_fn (plan r wm pages ! j)) < length AREA_SORT_ORDER"
      then have i: "i < length (sorted_indices_of r wm pages)"
        by (simp add: plan_def sorted_indices_of_def)
      have pi: "plan r wm pages ! i = page_info r wm pages idx"
        using sorted_nth_info [OF i] h by (simp add: plan_def)
      have ri: "fst (sort_key_fn (plan r wm pages ! i)) = length AREA_SORT_ORDER"
        using pi rank by simp
      show "j < i"
      proof (rule ccontr)
        assume "\<not> j < i"
        then consider "i = j" | "i < j" by linarith
        then show False
        proof cases
          case 1
          then show ?thesis using h ri by simp
        next
          case 2
          then have "fst (sort_key_fn (plan r wm pages ! i)) \<le>
                     fst (sort_key_fn (plan r wm pages ! j))"
            using h sorted_plan_rank_mono [of i j "pages_with_info_of r wm pages"]
            by (simp add: plan_def)
          then show ?thesis using h ri by simp
        qed
      qed
    qed
    have manifest: "\<forall>title data t s q s' q'.
               (title, data) \<in> set (summary_elements
                                    (summary_data_of (map snd pages) wm (kept wm pages))) \<and>
               (t, s, q) \<in> set ?d \<longrightarrow>
               [t, s', q'] \<notin> set (tl data)"
    proof (intro allI impI notI)
      fix title data t s q s' q'
      assume h: "(title, data) \<in> set (summary_elements
                                    (summary_data_of (map snd pages) wm (kept wm pages))) \<and>
               (t, s, q) \<in> set ?d"
        and row: "[t, s', q'] \<in> set (tl data)"
      have "item_area wm (t, s, q) \<in> set AREA_SORT_ORDER"
        using manifest_row_area [of title data "map snd pages" wm "kept wm pages" t s' q' s q]
          h row by blast
      moreover have "item_area wm (t, s, q) = ''Unknown Area''"
        using un h by blast
      ultimately show False using unknown_area_unlisted by simp
    qed
    show ?thesis using kept ident rank order manifest by blast
  qed
  show ?thesis using first second by blast
qed

theorem unknown_area_page_kept_last_unlisted_witness:
  "0 \<in> set (indices_to_keep_of (map snd unlisted_slips) unlisted_map) \<and>
   determine_area_identifier
     (product_areas_of (extract_product_details (snd (unlisted_slips ! 0)) unlisted_map)
        unlisted_map) = ''Unknown Area'' \<and>
   sorted_indices_of unlisted_run unlisted_map unlisted_slips = [1, 0] \<and>
   summary_elements (summary_data_of (map snd unlisted_slips) unlisted_map
      (indices_to_keep_of (map snd unlisted_slips) unlisted_map)) =
     [(''Locker: A13'', [[''Product Title'', ''Size'', ''Quantity''], [''Wool Hat'', ''S'', ''1'']])]"
proof -
  have l: "0 < length unlisted_slips"
    by (simp add: unlisted_slips_def)
  have d: "extract_product_details (snd (unlisted_slips ! 0)) unlisted_map =
             [(''Mystery Box'', ''M'', ''1'')]"
    by code_simp
  have a: "item_area unlisted_map (''Mystery Box'', ''M'', ''1'') = ''Unknown Area''"
    by code_simp
  have h: "extract_product_details (snd (unlisted_slips ! 0)) unlisted_map \<noteq> [] \<and>
          (\<forall>entry \<in> set (extract_product_details (snd (unlisted_slips ! 0)) unlisted_map).
             item_area unlisted_map entry = ''Unknown Area'')"
    unfolding d using a by simp
  have "0 \<in> set (indices_to_keep_of (map snd unlisted_slips) unlisted_map) \<and>
   determine_area_identifier
     (product_areas_of (extract_product_details (snd (unlisted_slips ! 0)) unlisted_map)
        unlisted_map) = ''Unknown Area''"
    using h unknown_area_page_kept_last_unlisted [OF l, of unlisted_map unlisted_run] by blast
  moreover have "sorted_indices_of unlisted_run unlisted_map unlisted_slips = [1, 0]"
    by code_simp
  moreover have "summary_elements (summary_data_of (map snd unlisted_slips) unlisted_map
      (indices_to_keep_of (map snd unlisted_slips) unlisted_map)) =
     [(''Locker: A13'', [[''Product Title'', ''Size'', ''Quantity''], [''Wool Hat'', ''S'', ''1'']])]"
    by code_simp
  ultimately show ?thesis by blast
qed

subsection \<open>The parser admits known titles only\<close>

text \<open>
  An item that \<^verbatim>\<open>extract_product_details\<close> returns has a title that, normalised, is a
  key of the warehouse map or holds \<^verbatim>\<open>sample\<close>. So the resolver never takes its last
  branch for a parsed item: the area of the item is \<^verbatim>\<open>garage\<close> or the entry of the map,
  and it is \<^verbatim>\<open>Unknown Area\<close> only when the map itself stores that string.
\<close>

lemma lower_char_idem: "lower_char (lower_char c) = lower_char c"
proof -
  let ?U = "''ABCDEFGHIJKLMNOPQRSTUVWXYZ''"
  let ?L = "''abcdefghijklmnopqrstuvwxyz''"
  have len: "length ?U = length ?L" by simp
  have apart: "list_all (\<lambda>d. d \<notin> set ?U) ?L" by code_simp
  have keys: "map fst (zip ?U ?L) = ?U" using len by (rule map_fst_zip)
  show ?thesis
  proof (cases "map_of (zip ?U ?L) c")
    case None
    then show ?thesis by (simp only: lower_char_def option.case)
  next
    case (Some d)
    then have "(c, d) \<in> set (zip ?U ?L)" by (rule map_of_SomeD)
    then have "d \<in> set ?L" by (rule set_zip_rightD)
    then have "d \<notin> set ?U" using apart unfolding list_all_iff by blast
    then have "d \<notin> fst ` set (zip ?U ?L)"
      using keys by (metis set_map)
    then have "map_of (zip ?U ?L) d = None" by (rule map_of_eq_None_iff [THEN iffD2])
    then show ?thesis using Some by (simp only: lower_char_def option.case)
  qed
qed

lemma set_strip: "set (strip s) \<subseteq> set s"
proof
  fix c assume "c \<in> set (strip s)"
  then have "c \<in> set (dropWhile py_isspace (rev (dropWhile py_isspace s)))"
    by (simp add: strip_def)
  then have "c \<in> set (rev (dropWhile py_isspace s))" by (rule set_dropWhileD)
  then have "c \<in> set (dropWhile py_isspace s)" by simp
  then show "c \<in> set s" by (rule set_dropWhileD)
qed

lemma lower_strip_lower: "lower (strip (lower t)) = strip (lower t)"
proof -
  have "\<forall>c \<in> set (strip (lower t)). lower_char c = c"
    using set_strip [of "lower t"] by (auto simp: lower_def lower_char_idem)
  then show ?thesis by (simp add: lower_def map_idI)
qed

lemma items_section_step:
  "items_section (l # ls) wm =
     (if strip l = [] \<or> list_ex (\<lambda>stop_phrase. py_in stop_phrase (strip l)) stop_phrases
      then []
      else if wm (strip (lower (strip l))) = None \<and>
              \<not> py_in ''sample'' (strip (lower (strip l)))
      then items_section ls wm
      else
        (case ls of
           [] \<Rightarrow> []
         | size_line # after \<Rightarrow>
             (case size_and_quantity (strip size_line) (strip (lower (strip l))) of
                None \<Rightarrow> items_section after wm
              | Some (size', quantity) \<Rightarrow>
                  (if strip l \<noteq> [] \<and> size' \<noteq> [] \<and> quantity \<noteq> []
                   then [(strip l, size', quantity)] else []) @
                  items_section (skip_sku after) wm)))"
  by (simp only: items_section.simps Let_def)

lemma if_chain_first: "a \<Longrightarrow> (if a then x else y) = x"
  by simp

lemma if_chain_second: "\<not> a \<Longrightarrow> b \<Longrightarrow> (if a then x else if b then y else z) = y"
  by simp

lemma if_chain_third: "\<not> a \<Longrightarrow> \<not> b \<Longrightarrow> (if a then x else if b then y else z) = z"
  by simp

lemma items_section_known:
  "(t, s, q) \<in> set (items_section ls wm) \<Longrightarrow>
     wm (strip (lower t)) \<noteq> None \<or> py_in ''sample'' (strip (lower t))"
proof (induction ls wm rule: items_section.induct)
  case (1 wm)
  have "items_section [] wm = []" by (rule items_section.simps(1))
  then show ?case using "1.prems" by (simp only: set_simps empty_iff)
next
  case (2 l ls wm)
  let ?pt = "strip l"
  let ?n = "strip (lower ?pt)"
  note step = items_section_step [of l ls wm]
  have go: "\<not> (?pt = [] \<or> list_ex (\<lambda>stop_phrase. py_in stop_phrase ?pt) stop_phrases)"
  proof
    assume stop: "?pt = [] \<or> list_ex (\<lambda>stop_phrase. py_in stop_phrase ?pt) stop_phrases"
    have "items_section (l # ls) wm = []"
      unfolding step by (rule if_chain_first [OF stop])
    then show False using "2.prems" by (simp only: set_simps empty_iff)
  qed
  show ?case
  proof (cases "wm ?n = None \<and> \<not> py_in ''sample'' ?n")
    case True
    have "items_section (l # ls) wm = items_section ls wm"
      unfolding step by (rule if_chain_second [OF go True])
    then have "(t, s, q) \<in> set (items_section ls wm)"
      using "2.prems" by (simp only:)
    then show ?thesis by (rule "2.IH"(1) [OF refl go refl True])
  next
    case False
    have rest: "items_section (l # ls) wm =
        (case ls of
           [] \<Rightarrow> []
         | size_line # after \<Rightarrow>
             (case size_and_quantity (strip size_line) ?n of
                None \<Rightarrow> items_section after wm
              | Some (size', quantity) \<Rightarrow>
                  (if ?pt \<noteq> [] \<and> size' \<noteq> [] \<and> quantity \<noteq> []
                   then [(?pt, size', quantity)] else []) @
                  items_section (skip_sku after) wm))"
      unfolding step by (rule if_chain_third [OF go False])
    show ?thesis
    proof (cases ls)
      case Nil
      have "items_section (l # ls) wm = []"
        by (subst rest) (simp only: Nil list.case)
      then show ?thesis using "2.prems" by (simp only: set_simps empty_iff)
    next
      case (Cons size_line after)
      show ?thesis
      proof (cases "size_and_quantity (strip size_line) ?n")
        case None
        have "items_section (l # ls) wm = items_section after wm"
          by (subst rest) (simp only: Cons list.case None option.case)
        then have "(t, s, q) \<in> set (items_section after wm)"
          using "2.prems" by (simp only:)
        then show ?thesis by (rule "2.IH"(2) [OF refl go refl False Cons None])
      next
        case (Some found)
        obtain sz qty where f: "found = (sz, qty)" by (cases found)
        have unf: "items_section (l # ls) wm =
                (if ?pt \<noteq> [] \<and> sz \<noteq> [] \<and> qty \<noteq> [] then [(?pt, sz, qty)] else []) @
                items_section (skip_sku after) wm"
          by (subst rest) (simp only: Cons list.case Some f option.case prod.case)
        have "(t, s, q) \<in> set ((if ?pt \<noteq> [] \<and> sz \<noteq> [] \<and> qty \<noteq> []
                      then [(?pt, sz, qty)] else []) @ items_section (skip_sku after) wm)"
          using "2.prems" unfolding unf .
        then have "(t, s, q) \<in> set (if ?pt \<noteq> [] \<and> sz \<noteq> [] \<and> qty \<noteq> []
                      then [(?pt, sz, qty)] else []) \<or>
                   (t, s, q) \<in> set (items_section (skip_sku after) wm)"
          by (simp only: set_append Un_iff)
        then show ?thesis
        proof
          assume "(t, s, q) \<in> set (if ?pt \<noteq> [] \<and> sz \<noteq> [] \<and> qty \<noteq> []
                      then [(?pt, sz, qty)] else [])"
          then have "t = ?pt"
            by (cases "?pt \<noteq> [] \<and> sz \<noteq> [] \<and> qty \<noteq> []")
               (simp_all del: items_section.simps)
          then show ?thesis using False by (simp del: items_section.simps)
        next
          assume "(t, s, q) \<in> set (items_section (skip_sku after) wm)"
          then show ?thesis
            by (rule "2.IH"(3) [OF refl go refl False Cons Some f [symmetric]])
        qed
      qed
    qed
  qed
qed

lemma parsed_items_never_fall_back:
  assumes "(t, s, q) \<in> set (extract_product_details text' wm)"
  shows "item_area wm (t, s, q) = ''garage'' \<or>
         wm (strip (lower t)) = Some (item_area wm (t, s, q))"
proof -
  obtain ls where "(t, s, q) \<in> set (items_section ls wm)"
    using assms by (auto simp: extract_product_details_def split: list.splits)
  then have k: "wm (strip (lower t)) \<noteq> None \<or> py_in ''sample'' (strip (lower t))"
    by (rule items_section_known)
  show ?thesis
  proof (cases "py_in ''sample'' (strip (lower t))")
    case True
    then show ?thesis
      by (simp add: item_area_def get_warehouse_area_def lower_strip_lower)
  next
    case False
    then obtain a where "wm (strip (lower t)) = Some a" using k by auto
    then show ?thesis using False
      by (simp add: item_area_def get_warehouse_area_def lower_strip_lower)
  qed
qed

end
